theory Spec2Isabelle
  imports Main
begin

section \<open>Constants of script.js\<close>

text \<open>
  The frozen table \<open>DEFAULTS\<close> of the script.  All durations are milliseconds.
\<close>

definition loadingDuration :: int where "loadingDuration = 2000"
definition disableDuration :: int where "disableDuration = 3000"
definition announceDelay :: int where "announceDelay = 150"
definition minDuration :: int where "minDuration = 100"
definition maxDuration :: int where "maxDuration = 30000"

text \<open>The attribute names of the tables \<open>ARIA\<close> and \<open>DATA_ATTRS\<close>.\<close>

definition aria_pressed :: string where "aria_pressed = ''aria-pressed''"
definition aria_expanded :: string where "aria_expanded = ''aria-expanded''"
definition aria_disabled :: string where "aria_disabled = ''aria-disabled''"
definition aria_busy :: string where "aria_busy = ''aria-busy''"
definition data_toggleGroup :: string where "data_toggleGroup = ''data-toggle-group''"
definition data_loadingDuration :: string where "data_loadingDuration = ''data-loading-duration''"
definition data_disableDuration :: string where "data_disableDuration = ''data-disable-duration''"
definition data_value :: string where "data_value = ''data-value''"
definition data_position :: string where "data_position = ''data-position''"
definition data_toggle :: string where "data_toggle = ''data-toggle''"
definition data_loadingText :: string where "data_loadingText = ''data-loading-text''"
definition data_autoDisable :: string where "data_autoDisable = ''data-auto-disable''"
definition aria_controls :: string where "aria_controls = ''aria-controls''"

section \<open>Utility functions\<close>

text \<open>\<open>clamp(value, min, max)\<close> is \<open>Math.min(Math.max(value, min), max)\<close>.\<close>

definition clamp :: "int \<Rightarrow> int \<Rightarrow> int \<Rightarrow> int" where
  "clamp v lo hi = min (max v lo) hi"

text \<open>
  \<open>parseInt(value, 10)\<close>: leading white space is skipped, one sign is read, then the
  longest run of decimal digits; the result is \<open>NaN\<close> (here \<open>None\<close>) when that run is
  empty.  A character stands for a code unit below 256, so the white space of the
  language that can occur is TAB, LF, VT, FF, CR, SP and NBSP.  The script's numbers are
  doubles; an integer too large for a double is far above \<open>maxDuration\<close> either way, so
  the clamped result is the same on unbounded integers.
\<close>

definition is_ws :: "char \<Rightarrow> bool" where
  "is_ws c = ((of_char c :: nat) \<in> {9, 10, 11, 12, 13, 32, 160})"

definition is_digit :: "char \<Rightarrow> bool" where
  "is_digit c = (48 \<le> (of_char c :: nat) \<and> (of_char c :: nat) \<le> 57)"

definition digit_val :: "char \<Rightarrow> int" where
  "digit_val c = int (of_char c) - 48"

definition dec :: "string \<Rightarrow> int" where
  "dec ds = foldl (\<lambda>a c. 10 * a + digit_val c) 0 ds"

definition parseInt10 :: "string \<Rightarrow> int option" where
  "parseInt10 s =
     (let t = dropWhile is_ws s;
          neg = (t \<noteq> [] \<and> hd t = CHR ''-'');
          u = (if t \<noteq> [] \<and> (hd t = CHR ''-'' \<or> hd t = CHR ''+'') then tl t else t);
          ds = takeWhile is_digit u
      in if ds = [] then None else Some (if neg then - dec ds else dec ds))"

text \<open>
  \<open>parseDuration(value, defaultValue)\<close>.  The attribute value is \<open>null\<close> (\<open>None\<close>) or
  a string; \<open>!value\<close> holds for \<open>null\<close> and for the empty string.
\<close>

definition parseDuration :: "string option \<Rightarrow> int \<Rightarrow> int" where
  "parseDuration v d =
     (case v of
        None \<Rightarrow> d
      | Some s \<Rightarrow>
          if s = [] then d
          else (case parseInt10 s of
                  None \<Rightarrow> d
                | Some n \<Rightarrow> if n < 0 then d else clamp n minDuration maxDuration))"

text \<open>
  \<open>isValidGroupName\<close> tests the name against \<open>/^[a-zA-Z0-9_-]+$/\<close>: at least one
  character, every character a letter, a digit, an underscore or a hyphen.
\<close>

definition is_group_char :: "char \<Rightarrow> bool" where
  "is_group_char c =
     (c \<in> set ''abcdefghijklmnopqrstuvwxyzABCDEFGHIJKLMNOPQRSTUVWXYZ0123456789_-'')"

definition isValidGroupName :: "string \<Rightarrow> bool" where
  "isValidGroupName name = (name \<noteq> [] \<and> list_all is_group_char name)"

text \<open>
  The words of the numeric policy, as predicates on attribute strings.  A non-negative
  integer is a string of decimal digits.  A numeric string is a decimal numeral: an
  optional sign, digits, and optionally a point followed by digits; any other string is
  not numeric, and a numeral is negative when it starts with a minus sign and has a digit
  other than zero.
\<close>

definition digit_string :: "string \<Rightarrow> bool" where
  "digit_string s = (s \<noteq> [] \<and> list_all is_digit s)"

definition decimal_numeral :: "string \<Rightarrow> bool" where
  "decimal_numeral s =
     (let u = (if s \<noteq> [] \<and> (hd s = CHR ''-'' \<or> hd s = CHR ''+'') then tl s else s);
          ip = takeWhile is_digit u;
          r = dropWhile is_digit u
      in ip \<noteq> [] \<and> (r = [] \<or> (hd r = CHR ''.'' \<and> tl r \<noteq> [] \<and> list_all is_digit (tl r))))"

definition not_numeric :: "string \<Rightarrow> bool" where
  "not_numeric s = (\<not> decimal_numeral s)"

definition negative_numeral :: "string \<Rightarrow> bool" where
  "negative_numeral s =
     (decimal_numeral s \<and> hd s = CHR ''-'' \<and> list_ex (\<lambda>c. is_digit c \<and> c \<noteq> CHR ''0'') s)"

text \<open>
  The integer a string starts with: \<open>s\<close> is white space \<open>ws\<close>, then at most one sign
  \<open>sg\<close>, then the longest run of digits \<open>ds\<close>, then the rest, which the parser never
  looks at.  Every string splits in this way.
\<close>

definition leading_integer :: "string \<Rightarrow> string \<Rightarrow> string \<Rightarrow> string \<Rightarrow> string \<Rightarrow> bool" where
  "leading_integer s ws sg ds rest =
     (s = ws @ sg @ ds @ rest
      \<and> list_all is_ws ws
      \<and> (sg = [] \<or> sg = ''-'' \<or> sg = ''+'')
      \<and> list_all is_digit ds
      \<and> (case rest of
            [] \<Rightarrow> True
          | c # _ \<Rightarrow> \<not> is_digit c
                     \<and> (sg \<noteq> [] \<or> ds \<noteq> [] \<or> (\<not> is_ws c \<and> c \<noteq> CHR ''-'' \<and> c \<noteq> CHR ''+''))))"

section \<open>The page and the side tables\<close>

text \<open>
  A widget is addressed by the identity of its node.  Of an element the script reads and
  writes its attributes, its class list, the \<open>disabled\<close> property, its markup
  (\<open>innerHTML\<close>) and its text (\<open>textContent\<close>); the last two are kept as separate
  fields, the script never reading one of them after writing the other.
\<close>

type_synonym node = nat

record element =
  attrs :: "string \<rightharpoonup> string"
  classes :: "string set"
  disabled :: bool
  innerHTML :: string
  textContent :: string

text \<open>The typedef \<open>LoadingState\<close>: the snapshot taken when loading starts.\<close>

record loading_state =
  orig_innerHTML :: string
  orig_disabled :: bool

text \<open>The payloads built by \<open>createEventDetail\<close>, one constructor per shape.\<close>

datatype detail =
    PressedDetail bool
  | EmptyDetail
  | SelectDetail string node
  | ExpandedDetail bool

text \<open>
  The closures handed to \<open>setTimeout\<close>: the expiry of a click-started loading
  countdown, the expiry of a countdown started by \<open>setLoading\<close> (it also resolves the
  promise it was created in), the expiry of an auto-disable countdown, and the delayed
  write of an announcement.
\<close>

datatype callback =
    LoadingExpire node
  | SetLoadingExpire node nat
  | AutoDisableExpire node
  | AnnounceSet string

record timer =
  tid :: nat
  due :: nat
  cb :: callback

datatype error = TypeError

datatype promise_state = Pending | Fulfilled | Rejected error

text \<open>An argument of \<open>setLoading\<close>: a falsy value, a value that is no element, or an element.\<close>

datatype handle = Null | NotElement | Element node

datatype key =
    Key_Enter | Key_Space | Key_Escape | Key_ArrowDown | Key_ArrowUp
  | Key_Home | Key_End | Key_Tab | Key_Other

text \<open>
  The state the script works on.  \<open>doc\<close> lists the nodes attached to the document, in
  document order: a node is connected exactly when it is listed.  \<open>q_trigger\<close>,
  \<open>q_menu\<close> and \<open>contains\<close> answer the structural queries the script makes of the tree
  (\<open>dropdown.querySelector\<close> for the trigger and for the menu, \<open>Node.contains\<close>); the
  script never changes them.  \<open>buttonTimeouts\<close> and \<open>buttonOriginalContent\<close> are the two
  weak maps, \<open>openDropdowns\<close> the tracking set in insertion order, \<open>liveRegion\<close> the
  announcement node.  \<open>timers\<close> are the pending timeouts in the order of their
  creation, \<open>timer_count\<close> the number of timeouts created so far (an identifier is
  positive, as in a browser), \<open>now\<close> the clock in milliseconds.  \<open>promises\<close> holds the
  promises made by \<open>setLoading\<close>, and \<open>events\<close> is the log of the custom events
  dispatched, oldest first.  Listeners of the host page, focus, layout and the item
  cache are outside the state.
\<close>

record state =
  elems :: "node \<Rightarrow> element"
  doc :: "node list"
  q_trigger :: "node \<rightharpoonup> node"
  q_menu :: "node \<rightharpoonup> node"
  contains :: "node \<Rightarrow> node \<Rightarrow> bool"
  buttonTimeouts :: "node \<rightharpoonup> nat"
  buttonOriginalContent :: "node \<rightharpoonup> loading_state"
  openDropdowns :: "node list"
  liveRegion :: "node option"
  i18n_loading :: string
  i18n_complete :: string
  timers :: "timer list"
  timer_count :: nat
  now :: nat
  promises :: "promise_state list"
  events :: "(node \<times> string \<times> detail) list"

subsection \<open>Element operations\<close>

definition update_element :: "node \<Rightarrow> (element \<Rightarrow> element) \<Rightarrow> state \<Rightarrow> state" where
  "update_element n f s = s\<lparr>elems := (elems s)(n := f (elems s n))\<rparr>"

definition getAttribute :: "node \<Rightarrow> string \<Rightarrow> state \<Rightarrow> string option" where
  "getAttribute n a s = attrs (elems s n) a"

definition setAttribute :: "node \<Rightarrow> string \<Rightarrow> string \<Rightarrow> state \<Rightarrow> state" where
  "setAttribute n a v = update_element n (\<lambda>e. e\<lparr>attrs := (attrs e)(a \<mapsto> v)\<rparr>)"

definition removeAttribute :: "node \<Rightarrow> string \<Rightarrow> state \<Rightarrow> state" where
  "removeAttribute n a = update_element n (\<lambda>e. e\<lparr>attrs := (attrs e)(a := None)\<rparr>)"

definition classList_contains :: "node \<Rightarrow> string \<Rightarrow> state \<Rightarrow> bool" where
  "classList_contains n c s = (c \<in> classes (elems s n))"

definition classList_add :: "node \<Rightarrow> string \<Rightarrow> state \<Rightarrow> state" where
  "classList_add n c = update_element n (\<lambda>e. e\<lparr>classes := insert c (classes e)\<rparr>)"

definition classList_remove :: "node \<Rightarrow> string \<Rightarrow> state \<Rightarrow> state" where
  "classList_remove n c = update_element n (\<lambda>e. e\<lparr>classes := classes e - {c}\<rparr>)"

text \<open>\<open>classList.toggle(c, force)\<close>: add when \<open>force\<close> holds, remove otherwise.\<close>

definition classList_toggle :: "node \<Rightarrow> string \<Rightarrow> bool \<Rightarrow> state \<Rightarrow> state" where
  "classList_toggle n c force = (if force then classList_add n c else classList_remove n c)"

definition set_disabled :: "node \<Rightarrow> bool \<Rightarrow> state \<Rightarrow> state" where
  "set_disabled n b = update_element n (\<lambda>e. e\<lparr>disabled := b\<rparr>)"

definition set_innerHTML :: "node \<Rightarrow> string \<Rightarrow> state \<Rightarrow> state" where
  "set_innerHTML n h = update_element n (\<lambda>e. e\<lparr>innerHTML := h\<rparr>)"

definition set_textContent :: "node \<Rightarrow> string \<Rightarrow> state \<Rightarrow> state" where
  "set_textContent n t = update_element n (\<lambda>e. e\<lparr>textContent := t\<rparr>)"

text \<open>\<open>String(b)\<close> for a boolean.\<close>

definition String_of_bool :: "bool \<Rightarrow> string" where
  "String_of_bool b = (if b then ''true'' else ''false'')"

text \<open>\<open>isElementConnected(element)\<close> for an element: its \<open>isConnected\<close> flag.\<close>

definition isElementConnected :: "node \<Rightarrow> state \<Rightarrow> bool" where
  "isElementConnected n s = (n \<in> set (doc s))"

text \<open>
  \<open>document.querySelectorAll('[data-toggle-group="g"]')\<close>: the elements of the document
  whose group attribute is exactly \<open>g\<close>, in document order.  (\<open>CSS.escape\<close> only
  protects the characters of \<open>g\<close> inside the selector; the value matched is \<open>g\<close>.)
\<close>

definition querySelectorAll_toggleGroup :: "string \<Rightarrow> state \<Rightarrow> node list" where
  "querySelectorAll_toggleGroup g s =
     filter (\<lambda>n. getAttribute n data_toggleGroup s = Some g) (doc s)"

subsection \<open>Events, timers, promises\<close>

text \<open>\<open>_dispatchEvent\<close>: the event is appended to the log.\<close>

definition dispatchEvent :: "node \<Rightarrow> string \<Rightarrow> detail \<Rightarrow> state \<Rightarrow> state" where
  "dispatchEvent n nm d s = s\<lparr>events := events s @ [(n, nm, d)]\<rparr>"

text \<open>\<open>setTimeout(cb, delay)\<close> returns the new identifier; \<open>clearTimeout\<close> drops it.\<close>

definition setTimeout :: "callback \<Rightarrow> int \<Rightarrow> state \<Rightarrow> nat \<times> state" where
  "setTimeout c delay s =
     (Suc (timer_count s),
      s\<lparr>timers := timers s @ [\<lparr>tid = Suc (timer_count s), due = now s + nat delay, cb = c\<rparr>],
        timer_count := Suc (timer_count s)\<rparr>)"

definition clearTimeout :: "nat \<Rightarrow> state \<Rightarrow> state" where
  "clearTimeout t s = s\<lparr>timers := filter (\<lambda>x. tid x \<noteq> t) (timers s)\<rparr>"

text \<open>
  The idiom \<open>const t = buttonTimeouts.get(button); if (t) clearTimeout(t)\<close>; an
  identifier is truthy when it is not zero.
\<close>

definition clearExisting :: "node \<Rightarrow> state \<Rightarrow> state" where
  "clearExisting b s =
     (case buttonTimeouts s b of
        None \<Rightarrow> s
      | Some t \<Rightarrow> if t \<noteq> 0 then clearTimeout t s else s)"

text \<open>A promise settles once: \<open>resolve\<close> and \<open>reject\<close> on a settled promise do nothing.\<close>

definition settle :: "nat \<Rightarrow> promise_state \<Rightarrow> state \<Rightarrow> state" where
  "settle p v s =
     (if p < length (promises s) \<and> promises s ! p = Pending
      then s\<lparr>promises := (promises s)[p := v]\<rparr> else s)"

definition promise :: "nat \<Rightarrow> state \<Rightarrow> promise_state option" where
  "promise p s = (if p < length (promises s) then Some (promises s ! p) else None)"

subsection \<open>The announcement channel\<close>

text \<open>\<open>_announce(message)\<close>.\<close>

definition announce :: "string \<Rightarrow> state \<Rightarrow> state" where
  "announce message s =
     (case liveRegion s of
        None \<Rightarrow> s
      | Some r \<Rightarrow> snd (setTimeout (AnnounceSet message) announceDelay (set_textContent r [] s)))"

text \<open>The text the live region shows, if there is one.\<close>

definition live_text :: "state \<Rightarrow> string option" where
  "live_text s = map_option (\<lambda>r. textContent (elems s r)) (liveRegion s)"

subsection \<open>Toggle buttons\<close>

text \<open>
  \<open>_handleToggle(button)\<close>.  The group attribute is used when it is present and not
  empty; an invalid name returns before anything is written or dispatched.
\<close>

definition toggle_group :: "node \<Rightarrow> string \<Rightarrow> state \<Rightarrow> state" where
  "toggle_group button g s =
     (let s1 = fold (\<lambda>btn t.
                   if btn \<noteq> button
                   then classList_remove btn ''btn--selected'' (setAttribute btn aria_pressed ''false'' t)
                   else t)
                (querySelectorAll_toggleGroup g s) s
      in classList_add button ''btn--selected'' (setAttribute button aria_pressed ''true'' s1))"

definition toggle_single :: "node \<Rightarrow> state \<Rightarrow> state" where
  "toggle_single button s =
     (let isPressed = (getAttribute button aria_pressed s = Some ''true'');
          newState = (\<not> isPressed)
      in classList_toggle button ''btn--selected'' newState
           (setAttribute button aria_pressed (String_of_bool newState) s))"

definition toggle_dispatch :: "node \<Rightarrow> state \<Rightarrow> state" where
  "toggle_dispatch button s =
     dispatchEvent button ''toggle''
       (PressedDetail (getAttribute button aria_pressed s = Some ''true'')) s"

definition handleToggle :: "node \<Rightarrow> state \<Rightarrow> state" where
  "handleToggle button s =
     (case getAttribute button data_toggleGroup s of
        None \<Rightarrow> toggle_dispatch button (toggle_single button s)
      | Some g \<Rightarrow>
          if g = [] then toggle_dispatch button (toggle_single button s)
          else if \<not> isValidGroupName g then s
          else toggle_dispatch button (toggle_group button g s))"

text \<open>\<open>setGroupValue(groupName, activeButton)\<close>; \<open>None\<close> is a falsy \<open>activeButton\<close>.\<close>

definition setGroupValue :: "string \<Rightarrow> node option \<Rightarrow> state \<Rightarrow> state" where
  "setGroupValue groupName activeButton s =
     (if \<not> isValidGroupName groupName then s
      else
        let s1 = fold (\<lambda>btn t.
                     let isActive = (Some btn = activeButton)
                     in classList_toggle btn ''btn--selected'' isActive
                          (setAttribute btn aria_pressed (String_of_bool isActive) t))
                   (querySelectorAll_toggleGroup groupName s) s
        in case activeButton of
             None \<Rightarrow> s1
           | Some a \<Rightarrow> dispatchEvent a ''toggle'' (PressedDetail True) s1)"

text \<open>Pressed state and group membership, as the attributes express them.\<close>

definition pressed :: "node \<Rightarrow> state \<Rightarrow> string option" where
  "pressed n s = getAttribute n aria_pressed s"

subsection \<open>Loading and auto-disable\<close>

text \<open>\<open>_resetLoadingState(button)\<close>.\<close>

definition resetLoadingState :: "node \<Rightarrow> state \<Rightarrow> state" where
  "resetLoadingState button s =
     (let original = buttonOriginalContent s button;
          s1 = setAttribute button aria_busy ''false'' (classList_remove button ''btn--loading'' s);
          s2 = (case original of
                  Some orig \<Rightarrow>
                    (set_innerHTML button (orig_innerHTML orig)
                       (set_disabled button (orig_disabled orig) s1))
                    \<lparr>buttonOriginalContent := (buttonOriginalContent s1)(button := None)\<rparr>
                | None \<Rightarrow> set_disabled button False s1);
          s3 = s2\<lparr>buttonTimeouts := (buttonTimeouts s2)(button := None)\<rparr>;
          s4 = announce (i18n_complete s3) s3
      in dispatchEvent button ''loadingComplete'' EmptyDetail s4)"

text \<open>The two deletions made for a button that is no longer connected.\<close>

definition discard_bookkeeping :: "node \<Rightarrow> state \<Rightarrow> state" where
  "discard_bookkeeping button s =
     s\<lparr>buttonOriginalContent := (buttonOriginalContent s)(button := None),
       buttonTimeouts := (buttonTimeouts s)(button := None)\<rparr>"

text \<open>The state changes both ways of starting a loading countdown share.\<close>

definition store_original :: "node \<Rightarrow> state \<Rightarrow> state" where
  "store_original button s =
     s\<lparr>buttonOriginalContent := (buttonOriginalContent s)
         (button \<mapsto> \<lparr>orig_innerHTML = innerHTML (elems s button),
                     orig_disabled = disabled (elems s button)\<rparr>)\<rparr>"

definition apply_loading :: "node \<Rightarrow> state \<Rightarrow> state" where
  "apply_loading button s =
     set_disabled button True
       (setAttribute button aria_busy ''true'' (classList_add button ''btn--loading'' s))"

definition start_timeout :: "node \<Rightarrow> callback \<Rightarrow> int \<Rightarrow> state \<Rightarrow> state" where
  "start_timeout button c delay s =
     (let (timeoutId, s1) = setTimeout c delay s
      in s1\<lparr>buttonTimeouts := (buttonTimeouts s1)(button \<mapsto> timeoutId)\<rparr>)"

text \<open>
  \<open>_handleLoading(button, event)\<close>.  A button already loading is left alone (the
  default action of the event, which is suppressed there, is not part of the state).
\<close>

definition handleLoading :: "node \<Rightarrow> state \<Rightarrow> state" where
  "handleLoading button s =
     (if classList_contains button ''btn--loading'' s then s
      else
        let duration = parseDuration (getAttribute button data_loadingDuration s) loadingDuration;
            s1 = store_original button s;
            s2 = apply_loading button s1;
            s3 = announce (i18n_loading s2) s2;
            s4 = clearExisting button s3
        in start_timeout button (LoadingExpire button) duration s4)"

text \<open>\<open>_handleAutoDisable(button)\<close>.\<close>

definition handleAutoDisable :: "node \<Rightarrow> state \<Rightarrow> state" where
  "handleAutoDisable button s =
     (let duration = parseDuration (getAttribute button data_disableDuration s) disableDuration;
          s1 = clearExisting button s;
          s2 = setAttribute button aria_disabled ''true'' (set_disabled button True s1)
      in start_timeout button (AutoDisableExpire button) duration s2)"

text \<open>
  \<open>setLoading(button, duration)\<close>: the promise is created first and its index returned
  with the new state; \<open>None\<close> is an omitted duration.
\<close>

definition setLoading :: "handle \<Rightarrow> int option \<Rightarrow> state \<Rightarrow> nat \<times> state" where
  "setLoading h duration s =
     (let p = length (promises s);
          s0 = s\<lparr>promises := promises s @ [Pending]\<rparr>
      in case h of
           Element button \<Rightarrow>
             (let validDuration =
                    clamp (case duration of None \<Rightarrow> loadingDuration | Some d \<Rightarrow> d)
                      minDuration maxDuration;
                  s1 = store_original button s0;
                  s2 = clearExisting button s1;
                  s3 = apply_loading button s2;
                  s4 = announce (i18n_loading s3) s3
              in (p, start_timeout button (SetLoadingExpire button p) validDuration s4))
         | _ \<Rightarrow> (p, settle p (Rejected TypeError) s0))"

text \<open>\<open>cancelLoading(button)\<close>; \<open>None\<close> is a falsy argument.\<close>

definition cancelLoading :: "node option \<Rightarrow> state \<Rightarrow> state" where
  "cancelLoading h s =
     (case h of
        None \<Rightarrow> s
      | Some button \<Rightarrow>
          let s1 = clearExisting button s
          in if isElementConnected button s1 then resetLoadingState button s1
             else discard_bookkeeping button s1)"

subsection \<open>Running timers\<close>

text \<open>What each closure does when its timeout fires.\<close>

definition run_callback :: "callback \<Rightarrow> state \<Rightarrow> state" where
  "run_callback c s =
     (case c of
        LoadingExpire button \<Rightarrow>
          if isElementConnected button s then resetLoadingState button s
          else discard_bookkeeping button s
      | SetLoadingExpire button p \<Rightarrow>
          settle p Fulfilled
            (if isElementConnected button s then resetLoadingState button s
             else discard_bookkeeping button s)
      | AutoDisableExpire button \<Rightarrow>
          (let s1 = (if isElementConnected button s
                     then removeAttribute button aria_disabled (set_disabled button False s)
                     else s)
           in s1\<lparr>buttonTimeouts := (buttonTimeouts s1)(button := None)\<rparr>)
      | AnnounceSet message \<Rightarrow>
          (case liveRegion s of
             None \<Rightarrow> s
           | Some r \<Rightarrow> if isElementConnected r s then set_textContent r message s else s))"

text \<open>
  A pending timeout fires: it leaves the pending list and its closure runs.  Time passes
  one millisecond at a time; at each instant the timeouts that are due fire in the order
  of their creation.
\<close>

definition fire_timer :: "nat \<Rightarrow> state \<Rightarrow> state" where
  "fire_timer t s =
     (case find (\<lambda>x. tid x = t) (timers s) of
        None \<Rightarrow> s
      | Some x \<Rightarrow> run_callback (cb x) (clearTimeout t s))"

definition fire_due :: "state \<Rightarrow> state" where
  "fire_due s = fold (\<lambda>x. fire_timer (tid x)) (filter (\<lambda>x. due x \<le> now s) (timers s)) s"

fun advance :: "nat \<Rightarrow> state \<Rightarrow> state" where
  "advance 0 s = s"
| "advance (Suc n) s = advance n (fire_due (s\<lparr>now := Suc (now s)\<rparr>))"

subsection \<open>Dropdowns\<close>

text \<open>
  \<open>_openDropdown(trigger, dropdown, menu)\<close>.  The work it defers to the next frame
  (measuring the menu, writing its position, moving the focus) depends on layout and is
  left out.
\<close>

definition openDropdown_private :: "node \<Rightarrow> node \<Rightarrow> node \<Rightarrow> state \<Rightarrow> state" where
  "openDropdown_private trigger dropdown menu s =
     (let s1 = setAttribute dropdown aria_expanded ''true''
                 (setAttribute trigger aria_expanded ''true'' s)
      in s1\<lparr>openDropdowns :=
              (if dropdown \<in> set (openDropdowns s1) then openDropdowns s1
               else openDropdowns s1 @ [dropdown])\<rparr>)"

text \<open>\<open>_closeDropdown(dropdown, trigger)\<close>; \<open>None\<close> is an omitted trigger.\<close>

definition closeDropdown_private :: "node \<Rightarrow> node option \<Rightarrow> state \<Rightarrow> state" where
  "closeDropdown_private dropdown trigger s =
     (let tr = (case trigger of None \<Rightarrow> q_trigger s dropdown | Some t \<Rightarrow> Some t);
          s1 = (case tr of None \<Rightarrow> s | Some t \<Rightarrow> setAttribute t aria_expanded ''false'' s);
          s2 = setAttribute dropdown aria_expanded ''false'' s1;
          s3 = s2\<lparr>openDropdowns := removeAll dropdown (openDropdowns s2)\<rparr>
      in case q_menu s3 dropdown of
           None \<Rightarrow> s3
         | Some menu \<Rightarrow> removeAttribute menu data_position s3)"

text \<open>\<open>_closeAllDropdowns()\<close>: every tracked dropdown still connected, then the set is cleared.\<close>

definition closeAllDropdowns_private :: "state \<Rightarrow> state" where
  "closeAllDropdowns_private s =
     (fold (\<lambda>dropdown t.
              if isElementConnected dropdown t then closeDropdown_private dropdown None t else t)
        (openDropdowns s) s)
     \<lparr>openDropdowns := []\<rparr>"

text \<open>\<open>String.prototype.trim\<close>.\<close>

definition trim :: "string \<Rightarrow> string" where
  "trim t = rev (dropWhile is_ws (rev (dropWhile is_ws t)))"

text \<open>\<open>_handleDropdownItemClick(item, dropdown, trigger)\<close>, without the focus move.\<close>

definition handleDropdownItemClick :: "node \<Rightarrow> node \<Rightarrow> node \<Rightarrow> state \<Rightarrow> state" where
  "handleDropdownItemClick item dropdown trigger s =
     (let v = (case getAttribute item data_value s of
                 None \<Rightarrow> trim (textContent (elems s item))
               | Some a \<Rightarrow> if a \<noteq> [] then a else trim (textContent (elems s item)))
      in closeDropdown_private dropdown (Some trigger)
           (dispatchEvent dropdown ''select'' (SelectDetail v item) s))"

text \<open>\<open>_handleDropdown(target, dropdown, event)\<close>.\<close>

definition handleDropdown :: "node \<Rightarrow> node \<Rightarrow> state \<Rightarrow> state" where
  "handleDropdown target dropdown s =
     (case q_trigger s dropdown of
        None \<Rightarrow> s
      | Some trigger \<Rightarrow>
          (case q_menu s dropdown of
             None \<Rightarrow> s
           | Some menu \<Rightarrow>
               if classList_contains target ''btn-dropdown__item'' s
               then handleDropdownItemClick target dropdown trigger s
               else if target = trigger \<or> contains s trigger target
               then
                 (let isExpanded = (getAttribute trigger aria_expanded s = Some ''true'');
                      s1 = closeAllDropdowns_private s
                  in if \<not> isExpanded then openDropdown_private trigger dropdown menu s1 else s1)
               else s))"

text \<open>
  \<open>_handleDropdownKeyboard(event, dropdown)\<close>, for the key and the target of the event.
  The cases that only move the focus leave the state as it is.
\<close>

definition handleDropdownKeyboard :: "key \<Rightarrow> node \<Rightarrow> node \<Rightarrow> state \<Rightarrow> state" where
  "handleDropdownKeyboard k target dropdown s =
     (case q_trigger s dropdown of
        None \<Rightarrow> s
      | Some trigger \<Rightarrow>
          (case q_menu s dropdown of
             None \<Rightarrow> s
           | Some menu \<Rightarrow>
               (let isExpanded = (getAttribute trigger aria_expanded s = Some ''true'')
                in case k of
                     Key_Escape \<Rightarrow>
                       if isExpanded then closeDropdown_private dropdown (Some trigger) s else s
                   | Key_ArrowDown \<Rightarrow>
                       if \<not> isExpanded then openDropdown_private trigger dropdown menu s else s
                   | Key_ArrowUp \<Rightarrow> s
                   | Key_Home \<Rightarrow> s
                   | Key_End \<Rightarrow> s
                   | Key_Enter \<Rightarrow>
                       if classList_contains target ''btn-dropdown__item'' s
                       then handleDropdownItemClick target dropdown trigger s else s
                   | Key_Space \<Rightarrow>
                       if classList_contains target ''btn-dropdown__item'' s
                       then handleDropdownItemClick target dropdown trigger s else s
                   | Key_Tab \<Rightarrow>
                       if isExpanded then closeDropdown_private dropdown (Some trigger) s else s
                   | Key_Other \<Rightarrow> s)))"

text \<open>The public \<open>openDropdown(dropdown)\<close>; \<open>None\<close> is a falsy argument.\<close>

definition openDropdown :: "node option \<Rightarrow> state \<Rightarrow> state" where
  "openDropdown h s =
     (case h of
        None \<Rightarrow> s
      | Some dropdown \<Rightarrow>
          (case q_trigger s dropdown of
             None \<Rightarrow> s
           | Some trigger \<Rightarrow>
               (case q_menu s dropdown of
                  None \<Rightarrow> s
                | Some menu \<Rightarrow>
                    openDropdown_private trigger dropdown menu (closeAllDropdowns_private s))))"

subsection \<open>Expand buttons and the click dispatcher\<close>

text \<open>
  \<open>hasAttribute\<close>; \<open>document.getElementById\<close>, the first element of the document with
  that id; and the property \<open>hidden\<close>, which reflects the attribute of the same name.
\<close>

definition hasAttribute :: "node \<Rightarrow> string \<Rightarrow> state \<Rightarrow> bool" where
  "hasAttribute n a s = (getAttribute n a s \<noteq> None)"

definition getElementById :: "string \<Rightarrow> state \<Rightarrow> node option" where
  "getElementById i s = find (\<lambda>n. getAttribute n ''id'' s = Some i) (doc s)"

definition set_hidden :: "node \<Rightarrow> bool \<Rightarrow> state \<Rightarrow> state" where
  "set_hidden n b = (if b then setAttribute n ''hidden'' [] else removeAttribute n ''hidden'')"

text \<open>\<open>_handleExpand(button)\<close>.\<close>

definition handleExpand :: "node \<Rightarrow> state \<Rightarrow> state" where
  "handleExpand button s =
     (let targetId = getAttribute button aria_controls s;
          target = (case targetId of
                      None \<Rightarrow> None
                    | Some i \<Rightarrow> if i = [] then None else getElementById i s);
          isExpanded = (getAttribute button aria_expanded s = Some ''true'');
          newState = (\<not> isExpanded);
          s1 = setAttribute button aria_expanded (String_of_bool newState) s;
          s2 = (case target of None \<Rightarrow> s1 | Some t \<Rightarrow> set_hidden t (\<not> newState) s1)
      in dispatchEvent button ''expand'' (ExpandedDetail newState) s2)"

text \<open>
  \<open>_handleEvent(event)\<close> for a click.  The three arguments are what the \<open>closest\<close>
  calls return for the target of the event: whether the target lies in a dropdown, the
  nearest enclosing button, and the dropdown that button lies in.  The handlers run in
  the order of the source, each on the state the one before has left.  On a disabled
  button the event is only stopped, which changes nothing of the state kept here.
\<close>

definition handleEvent :: "bool \<Rightarrow> node option \<Rightarrow> node option \<Rightarrow> state \<Rightarrow> state" where
  "handleEvent in_dropdown button dropdown s =
     (let s0 = (if \<not> in_dropdown then closeAllDropdowns_private s else s)
      in case button of
           None \<Rightarrow> s0
         | Some b \<Rightarrow>
             if disabled (elems s0 b) \<or> getAttribute b aria_disabled s0 = Some ''true'' then s0
             else
               let s1 = (if hasAttribute b data_toggle s0 then handleToggle b s0 else s0);
                   s2 = (if hasAttribute b data_loadingText s1 then handleLoading b s1 else s1);
                   s3 = (if hasAttribute b data_autoDisable s2 then handleAutoDisable b s2 else s2);
                   s4 = (case dropdown of None \<Rightarrow> s3 | Some d \<Rightarrow> handleDropdown b d s3)
               in if classList_contains b ''btn-expand'' s4 then handleExpand b s4 else s4)"

subsection \<open>Construction\<close>

text \<open>
  The state a \<open>ButtonSystem\<close> starts from on an empty page: empty side tables, no live
  region, the default strings.  \<open>attach\<close> is the host page putting an element into the
  document; \<open>createLiveRegion\<close> is \<open>_createLiveRegion()\<close> for the fresh node \<open>r\<close>.
\<close>

definition blank :: element where
  "blank = \<lparr>attrs = Map.empty, classes = {}, disabled = False, innerHTML = [], textContent = []\<rparr>"

definition empty_page :: state where
  "empty_page =
     \<lparr>elems = (\<lambda>_. blank), doc = [], q_trigger = Map.empty, q_menu = Map.empty,
      contains = (\<lambda>a b. a = b), buttonTimeouts = Map.empty,
      buttonOriginalContent = Map.empty, openDropdowns = [], liveRegion = None,
      i18n_loading = ''Loading, please wait'', i18n_complete = ''Action completed'',
      timers = [], timer_count = 0, now = 0, promises = [], events = []\<rparr>"

definition attach :: "node \<Rightarrow> element \<Rightarrow> state \<Rightarrow> state" where
  "attach n e s = s\<lparr>elems := (elems s)(n := e), doc := doc s @ [n]\<rparr>"

definition createLiveRegion :: "node \<Rightarrow> state \<Rightarrow> state" where
  "createLiveRegion r s =
     (case liveRegion s of
        Some _ \<Rightarrow> s
      | None \<Rightarrow>
          (attach r (blank\<lparr>attrs := [''id'' \<mapsto> ''btn-system-live-region'',
                                     ''aria-live'' \<mapsto> ''polite'', ''aria-atomic'' \<mapsto> ''true'',
                                     ''role'' \<mapsto> ''status''],
                            classes := {''sr-only''}\<rparr>) s)
          \<lparr>liveRegion := Some r\<rparr>)"

subsection \<open>Example pages\<close>

text \<open>
  A page with the toggle group \<open>size\<close> of three unpressed members, and the same page
  with two more toggles: one whose group attribute is empty, one whose group name holds
  a space.
\<close>

definition group_member :: "string \<Rightarrow> element" where
  "group_member g = blank\<lparr>attrs := [''data-toggle'' \<mapsto> [], data_toggleGroup \<mapsto> g]\<rparr>"

definition size_page :: state where
  "size_page =
     attach 13 (group_member ''size'') (attach 12 (group_member ''size'')
       (attach 11 (group_member ''size'') empty_page))"

definition odd_page :: state where
  "odd_page = attach 15 (group_member ''a b'') (attach 14 (group_member []) size_page)"

subsection \<open>Loading sessions\<close>

text \<open>
  The identifiers of the pending timeouts never exceed the number of timeouts created:
  the invariant of the timer table.
\<close>

definition timers_wf :: "state \<Rightarrow> bool" where
  "timers_wf s = list_all (\<lambda>x. tid x \<le> timer_count s) (timers s)"

text \<open>A timeout identifier is pending when a timer of the pending list carries it.\<close>

definition pending :: "nat \<Rightarrow> state \<Rightarrow> bool" where
  "pending t s = (t \<in> tid ` set (timers s))"

text \<open>The timeout \<open>_announce\<close> adds to the pending list: none without a live region.\<close>

definition announce_timer :: "string \<Rightarrow> state \<Rightarrow> timer list" where
  "announce_timer m x =
     (case liveRegion x of
        None \<Rightarrow> []
      | Some r \<Rightarrow> [\<lparr>tid = Suc (timer_count x), due = now x + 150, cb = AnnounceSet m\<rparr>])"

text \<open>The number of \<open>loadingComplete\<close> events dispatched on a widget so far.\<close>

definition loadingComplete_count :: "node \<Rightarrow> state \<Rightarrow> nat" where
  "loadingComplete_count w s =
     length (filter (\<lambda>e. fst e = w \<and> fst (snd e) = ''loadingComplete'') (events s))"

text \<open>The closures that end a loading countdown of \<open>w\<close>, however it was started.\<close>

definition is_loading_callback :: "node \<Rightarrow> callback \<Rightarrow> bool" where
  "is_loading_callback w c =
     (case c of LoadingExpire b \<Rightarrow> b = w | SetLoadingExpire b p \<Rightarrow> b = w | _ \<Rightarrow> False)"

text \<open>
  A loading countdown of \<open>w\<close> with timer \<open>t\<close> is pending: the slot of \<open>w\<close> in
  \<open>buttonTimeouts\<close> holds \<open>t\<close>, and \<open>t\<close> is a pending timeout whose closure is the
  loading expiry of \<open>w\<close>.  A loading session is such a countdown on a connected widget.
\<close>

definition countdown_pending :: "node \<Rightarrow> nat \<Rightarrow> state \<Rightarrow> bool" where
  "countdown_pending w t x =
     (timers_wf x \<and> buttonTimeouts x w = Some t \<and> t \<noteq> 0
      \<and> (case find (\<lambda>y. tid y = t) (timers x) of
            None \<Rightarrow> False
          | Some T \<Rightarrow> is_loading_callback w (cb T)))"

definition in_session :: "node \<Rightarrow> nat \<Rightarrow> state \<Rightarrow> bool" where
  "in_session w t x =
     (timers_wf x \<and> isElementConnected w x \<and> buttonTimeouts x w = Some t \<and> t \<noteq> 0
      \<and> (case find (\<lambda>y. tid y = t) (timers x) of
            None \<Rightarrow> False
          | Some T \<Rightarrow> is_loading_callback w (cb T)))"

text \<open>The closures of the timers owned by a widget: loading and auto-disable expiry.\<close>

definition is_widget_callback :: "node \<Rightarrow> callback \<Rightarrow> bool" where
  "is_widget_callback w c =
     (case c of LoadingExpire b \<Rightarrow> b = w | SetLoadingExpire b p \<Rightarrow> b = w
      | AutoDisableExpire b \<Rightarrow> b = w | AnnounceSet m \<Rightarrow> False)"

text \<open>
  A promise that is pending while no pending timeout holds the closure that resolves it.
\<close>

definition never_resolved :: "nat \<Rightarrow> state \<Rightarrow> bool" where
  "never_resolved p s =
     (promise p s = Some Pending
      \<and> list_all (\<lambda>y. case cb y of SetLoadingExpire b q \<Rightarrow> q \<noteq> p | _ \<Rightarrow> True) (timers s))"

text \<open>
  A page with a loading button (node 21, duration attribute 150), a disabled plain button
  (node 22) and the live region (node 100); and the same page after a click on the
  loading button followed by the removal of that button from the document.
\<close>

definition loading_button :: element where
  "loading_button =
     blank\<lparr>attrs := [''data-loading-text'' \<mapsto> ''Saving'', data_loadingDuration \<mapsto> ''150''],
           innerHTML := ''Save''\<rparr>"

definition loading_page :: state where
  "loading_page =
     createLiveRegion 100 (attach 22 (blank\<lparr>disabled := True\<rparr>)
       (attach 21 loading_button empty_page))"

definition detached_page :: state where
  "detached_page = (handleLoading 21 loading_page)\<lparr>doc := [22, 100]\<rparr>"

text \<open>
  A page with two closed dropdowns: container 31 with trigger 32 and menu 33, container 41
  with trigger 42 and menu 43.
\<close>

definition dropdown_part :: "string \<Rightarrow> element" where
  "dropdown_part c = blank\<lparr>classes := {c}\<rparr>"

definition two_dropdowns :: state where
  "two_dropdowns =
     (attach 43 (dropdown_part ''btn-dropdown__menu'')
       (attach 42 (dropdown_part ''btn-dropdown__trigger'')
         (attach 41 (dropdown_part ''btn-dropdown'')
           (attach 33 (dropdown_part ''btn-dropdown__menu'')
             (attach 32 (dropdown_part ''btn-dropdown__trigger'')
               (attach 31 (dropdown_part ''btn-dropdown'') empty_page))))))
     \<lparr>q_trigger := [31 \<mapsto> 32, 41 \<mapsto> 42], q_menu := [31 \<mapsto> 33, 41 \<mapsto> 43]\<rparr>"

text \<open>
  The example page with one more button (node 23) after a click that started its
  auto-disable countdown.
\<close>

definition disabling_page :: state where
  "disabling_page =
     handleAutoDisable 23 (attach 23 (blank\<lparr>attrs := [''data-auto-disable'' \<mapsto> []]\<rparr>) loading_page)"

text \<open>
  A widget that shows the loading state while no pending timeout would end it, with the
  number of \<open>loadingComplete\<close> events it has had.
\<close>

definition stuck_loading :: "node \<Rightarrow> nat \<Rightarrow> state \<Rightarrow> bool" where
  "stuck_loading w k s =
     (classList_contains w ''btn--loading'' s
      \<and> getAttribute w aria_busy s = Some ''true''
      \<and> loadingComplete_count w s = k
      \<and> list_all (\<lambda>y. \<not> is_loading_callback w (cb y)) (timers s))"

text \<open>
  The page after the click on the loading button, with the loading class taken off the
  button by the host page; and a page with a button (node 24) that carries both the
  loading and the auto-disable marker.
\<close>

definition unmarked_page :: state where
  "unmarked_page = classList_remove 21 ''btn--loading'' (handleLoading 21 loading_page)"

definition both_button :: element where
  "both_button = blank\<lparr>attrs := [data_loadingText \<mapsto> ''Saving'', data_autoDisable \<mapsto> []]\<rparr>"

definition both_page :: state where
  "both_page = createLiveRegion 100 (attach 24 both_button empty_page)"

section \<open>The duration parser\<close>

lemma digit_not_ws: "is_digit c \<Longrightarrow> \<not> is_ws c"
  by (auto simp: is_digit_def is_ws_def)

lemma digit_not_sign: "is_digit c \<Longrightarrow> c \<noteq> CHR ''-'' \<and> c \<noteq> CHR ''+''"
  by (auto simp: is_digit_def)

lemma clamp_bounds: "lo \<le> hi \<Longrightarrow> lo \<le> clamp v lo hi \<and> clamp v lo hi \<le> hi"
  by (auto simp: clamp_def)

lemma sign_not_ws: "\<not> is_ws CHR ''-''" "\<not> is_ws CHR ''+''"
  by (simp_all add: is_ws_def)

lemma dropWhile_ws_prefix:
  "list_all is_ws ws \<Longrightarrow> t = [] \<or> \<not> is_ws (hd t) \<Longrightarrow> dropWhile is_ws (ws @ t) = t"
  by (cases t) (auto simp: list_all_iff dropWhile_append)

lemma takeWhile_digit_prefix:
  "list_all is_digit ds \<Longrightarrow> rest = [] \<or> \<not> is_digit (hd rest) \<Longrightarrow>
   takeWhile is_digit (ds @ rest) = ds"
  by (cases rest) (auto simp: list_all_iff takeWhile_append)

lemma dec_nonneg: "list_all is_digit ds \<Longrightarrow> 0 \<le> dec ds"
proof -
  have "0 \<le> a \<Longrightarrow> list_all is_digit xs \<Longrightarrow>
        0 \<le> foldl (\<lambda>a c. 10 * a + digit_val c) a xs" for a xs
    by (induction xs arbitrary: a) (auto simp: is_digit_def digit_val_def)
  then show "list_all is_digit ds \<Longrightarrow> 0 \<le> dec ds"
    by (simp add: dec_def)
qed

lemma parseInt10_shape:
  assumes dw: "dropWhile is_ws s = sg @ x"
    and sg: "sg = [] \<or> sg = ''-'' \<or> sg = ''+''"
    and ns: "sg = [] \<Longrightarrow> x = [] \<or> (hd x \<noteq> CHR ''-'' \<and> hd x \<noteq> CHR ''+'')"
    and tw: "takeWhile is_digit x = ds"
  shows "parseInt10 s = (if ds = [] then None else Some (if sg = ''-'' then - dec ds else dec ds))"
proof (cases "sg = []")
  case True
  then show ?thesis
    using ns [OF True] dw tw by (auto simp: parseInt10_def Let_def)
next
  case False
  then show ?thesis
    using sg dw tw by (auto simp: parseInt10_def Let_def)
qed

lemma parseInt10_leading_integer:
  assumes "leading_integer s ws sg ds rest"
  shows "parseInt10 s = (if ds = [] then None else Some (if sg = ''-'' then - dec ds else dec ds))"
proof -
  have s: "s = ws @ sg @ ds @ rest" and ws: "list_all is_ws ws"
    and sg: "sg = [] \<or> sg = ''-'' \<or> sg = ''+''" and ds: "list_all is_digit ds"
    using assms by (simp_all add: leading_integer_def)
  have r1: "rest = [] \<or> \<not> is_digit (hd rest)"
    using assms by (cases rest) (simp_all add: leading_integer_def)
  have r2: "rest = [] \<or> (\<not> is_ws (hd rest) \<and> hd rest \<noteq> CHR ''-'' \<and> hd rest \<noteq> CHR ''+'')"
    if "sg = []" "ds = []"
    using assms that by (cases rest) (simp_all add: leading_integer_def)
  have d0: "ds \<noteq> [] \<Longrightarrow> is_digit (hd ds)"
    using ds by (cases ds) simp_all
  define x where "x = ds @ rest"
  have hx: "ds \<noteq> [] \<Longrightarrow> hd x = hd ds" and ex: "ds = [] \<Longrightarrow> x = rest"
    by (simp_all add: x_def)
  have t: "sg @ x = [] \<or> \<not> is_ws (hd (sg @ x))"
  proof (cases "sg = []")
    case True
    show ?thesis
    proof (cases "ds = []")
      case True
      then show ?thesis using \<open>sg = []\<close> r2 ex by auto
    next
      case False
      then show ?thesis using \<open>sg = []\<close> d0 digit_not_ws hx by auto
    qed
  next
    case False
    then show ?thesis using sg sign_not_ws by auto
  qed
  have dw: "dropWhile is_ws s = sg @ x"
    unfolding s x_def [symmetric] using ws t by (rule dropWhile_ws_prefix)
  have tw: "takeWhile is_digit x = ds"
    unfolding x_def using ds r1 by (rule takeWhile_digit_prefix)
  have ns: "x = [] \<or> (hd x \<noteq> CHR ''-'' \<and> hd x \<noteq> CHR ''+'')" if "sg = []"
  proof (cases "ds = []")
    case True
    then show ?thesis using that r2 ex by auto
  next
    case False
    then show ?thesis using d0 digit_not_sign hx by auto
  qed
  show ?thesis
    using dw sg ns tw by (rule parseInt10_shape)
qed

lemma leading_integer_exists: "\<exists>ws sg ds rest. leading_integer s ws sg ds rest"
proof -
  define ws where "ws = takeWhile is_ws s"
  define t where "t = dropWhile is_ws s"
  define sg where "sg = (if t \<noteq> [] \<and> (hd t = CHR ''-'' \<or> hd t = CHR ''+'') then [hd t] else [])"
  define u where "u = (if t \<noteq> [] \<and> (hd t = CHR ''-'' \<or> hd t = CHR ''+'') then tl t else t)"
  define ds where "ds = takeWhile is_digit u"
  define rest where "rest = dropWhile is_digit u"
  have a: "s = ws @ t" by (simp add: ws_def t_def)
  have b: "t = sg @ u" by (cases t) (auto simp: sg_def u_def)
  have c: "u = ds @ rest" by (simp add: ds_def rest_def)
  have w: "list_all is_ws ws"
    by (auto simp: ws_def list_all_iff dest: set_takeWhileD)
  have d: "list_all is_digit ds"
    by (auto simp: ds_def list_all_iff dest: set_takeWhileD)
  have g: "sg = [] \<or> sg = ''-'' \<or> sg = ''+''"
    by (auto simp: sg_def)
  have r: "rest = [] \<or> \<not> is_digit (hd rest)"
    unfolding rest_def by (metis hd_dropWhile)
  have tn: "t = [] \<or> \<not> is_ws (hd t)"
    unfolding t_def by (metis hd_dropWhile)
  have e: "rest = [] \<or> (\<not> is_ws (hd rest) \<and> hd rest \<noteq> CHR ''-'' \<and> hd rest \<noteq> CHR ''+'')"
    if "sg = []" "ds = []"
  proof -
    have "rest = t" using that b c by simp
    moreover have "t = [] \<or> (hd t \<noteq> CHR ''-'' \<and> hd t \<noteq> CHR ''+'')"
      using that(1) by (auto simp: sg_def split: if_splits)
    ultimately show ?thesis using tn by auto
  qed
  have "leading_integer s ws sg ds rest"
    using a b c w d g r e by (cases rest) (auto simp: leading_integer_def)
  then show ?thesis by blast
qed

text \<open>
  Claim C6, as stated, fails in two ways.  \<open>12abc\<close> is not numeric, yet the parser reads
  its leading digits and returns 12 clamped to 100, not the default.  \<open>-0.5\<close> is a
  negative number, yet the parser reads \<open>-0\<close>, which is not below zero, and returns 0
  clamped to 100, not the default.
\<close>

theorem parseDuration_wording_counterexample:
  "not_numeric ''12abc'' \<and> parseDuration (Some ''12abc'') 2000 = 100
   \<and> negative_numeral ''-0.5'' \<and> parseDuration (Some ''-0.5'') 2000 = 100"
  by (simp add: not_numeric_def negative_numeral_def decimal_numeral_def parseDuration_def
      parseInt10_def is_digit_def is_ws_def dec_def digit_val_def clamp_def minDuration_def
      maxDuration_def Let_def)

text \<open>
  Claim C6, amended.  The duration parser returns the default \<open>d\<close> when the attribute
  is missing or empty.  Otherwise it reads the integer the string starts with (white
  space, an optional sign, the longest run of digits) and ignores what follows: it
  returns \<open>d\<close> when there is no digit to read or when the integer read is negative, and
  the integer clamped into \<open>[minDuration, maxDuration]\<close> in every other case; in
  particular a string of digits gives its value clamped.  The parser is a total function,
  and on every input the result is the default or lies within the two bounds.
\<close>

theorem parseDuration_leading_integer:
  "parseDuration None d = d
   \<and> parseDuration (Some []) d = d
   \<and> (\<exists>ws sg ds rest. leading_integer s ws sg ds rest)
   \<and> (leading_integer s ws sg ds rest \<longrightarrow>
        parseDuration (Some s) d =
          (if ds = [] \<or> (sg = ''-'' \<and> 0 < dec ds) then d
           else clamp (dec ds) minDuration maxDuration))
   \<and> (digit_string s \<longrightarrow>
        parseDuration (Some s) d = clamp (dec s) minDuration maxDuration
        \<and> minDuration \<le> parseDuration (Some s) d
        \<and> parseDuration (Some s) d \<le> maxDuration)
   \<and> (parseDuration v d = d
        \<or> (minDuration \<le> parseDuration v d \<and> parseDuration v d \<le> maxDuration))"
proof -
  have b: "minDuration \<le> maxDuration"
    by (simp add: minDuration_def maxDuration_def)
  have c0: "parseDuration None d = d" "parseDuration (Some []) d = d"
    by (simp_all add: parseDuration_def)
  have c1: "parseDuration (Some s) d =
          (if ds = [] \<or> (sg = ''-'' \<and> 0 < dec ds) then d
           else clamp (dec ds) minDuration maxDuration)"
    if l: "leading_integer s ws sg ds rest" for s ws sg ds rest
  proof -
    have n: "0 \<le> dec ds"
      using l by (intro dec_nonneg) (simp add: leading_integer_def)
    have e: "ds \<noteq> [] \<Longrightarrow> s \<noteq> []"
      using l by (simp add: leading_integer_def)
    show ?thesis
      using n e by (auto simp: parseDuration_def parseInt10_leading_integer [OF l])
  qed
  have c3: "parseDuration (Some s) d = clamp (dec s) minDuration maxDuration
        \<and> minDuration \<le> parseDuration (Some s) d
        \<and> parseDuration (Some s) d \<le> maxDuration" if ds: "digit_string s"
  proof -
    have "leading_integer s [] [] s []"
      using ds by (simp add: leading_integer_def digit_string_def)
    then have "parseDuration (Some s) d = clamp (dec s) minDuration maxDuration"
      using c1 [of s "[]" "[]" s "[]"] ds by (simp add: digit_string_def)
    then show ?thesis
      using clamp_bounds [OF b] by simp
  qed
  have c4: "parseDuration v d = d
        \<or> (minDuration \<le> parseDuration v d \<and> parseDuration v d \<le> maxDuration)"
  proof (cases "parseDuration v d = d")
    case False
    then have "parseDuration v d = clamp (the (parseInt10 (the v))) minDuration maxDuration"
      by (auto simp: parseDuration_def split: option.splits if_splits)
    then show ?thesis
      using clamp_bounds [OF b] by simp
  qed simp
  show ?thesis
    using c0 c1 c3 c4 leading_integer_exists by blast
qed

text \<open>One attribute value for each case of the policy.\<close>

theorem parseDuration_leading_integer_witness:
  "leading_integer ''abc'' [] [] [] ''abc'' \<and> parseDuration (Some ''abc'') 2000 = 2000
   \<and> leading_integer ''-5'' [] ''-'' ''5'' [] \<and> parseDuration (Some ''-5'') 2000 = 2000
   \<and> leading_integer ''250'' [] [] ''250'' [] \<and> parseDuration (Some ''250'') 2000 = 250
   \<and> leading_integer '' 250'' '' '' [] ''250'' [] \<and> parseDuration (Some '' 250'') 2000 = 250
   \<and> leading_integer ''12abc'' [] [] ''12'' ''abc'' \<and> parseDuration (Some ''12abc'') 2000 = 100
   \<and> leading_integer ''-0.5'' [] ''-'' ''0'' ''.5'' \<and> parseDuration (Some ''-0.5'') 2000 = 100
   \<and> leading_integer ''+7'' [] ''+'' ''7'' [] \<and> parseDuration (Some ''+7'') 2000 = 100
   \<and> digit_string ''99999'' \<and> parseDuration (Some ''99999'') 2000 = 30000"
proof -
  have h: "leading_integer ''abc'' [] [] [] ''abc''"
    "leading_integer ''-5'' [] ''-'' ''5'' []"
    "leading_integer ''250'' [] [] ''250'' []"
    "leading_integer '' 250'' '' '' [] ''250'' []"
    "leading_integer ''12abc'' [] [] ''12'' ''abc''"
    "leading_integer ''-0.5'' [] ''-'' ''0'' ''.5''"
    "leading_integer ''+7'' [] ''+'' ''7'' []"
    by (simp_all add: leading_integer_def is_digit_def is_ws_def)
  have g: "digit_string ''99999''"
    by (simp add: digit_string_def is_digit_def)
  have v: "dec ''5'' = 5" "dec ''250'' = 250" "dec ''12'' = 12" "dec ''0'' = 0" "dec ''7'' = 7"
    "dec ''99999'' = 99999"
    by (simp_all add: dec_def digit_val_def)
  show ?thesis
    using h g
      parseDuration_leading_integer [of 2000 "''abc''" "[]" "[]" "[]" "''abc''" None]
      parseDuration_leading_integer [of 2000 "''-5''" "[]" "''-''" "''5''" "[]" None]
      parseDuration_leading_integer [of 2000 "''250''" "[]" "[]" "''250''" "[]" None]
      parseDuration_leading_integer [of 2000 "'' 250''" "'' ''" "[]" "''250''" "[]" None]
      parseDuration_leading_integer [of 2000 "''12abc''" "[]" "[]" "''12''" "''abc''" None]
      parseDuration_leading_integer [of 2000 "''-0.5''" "[]" "''-''" "''0''" "''.5''" None]
      parseDuration_leading_integer [of 2000 "''+7''" "[]" "''+''" "''7''" "[]" None]
      parseDuration_leading_integer [of 2000 "''99999''" "[]" "[]" "[]" "''99999''" None]
    by (simp add: v clamp_def minDuration_def maxDuration_def)
qed

section \<open>Toggle groups\<close>

lemma getAttribute_update_element:
  "getAttribute n a (update_element m f s) =
     (if n = m then attrs (f (elems s m)) a else getAttribute n a s)"
  by (simp add: getAttribute_def update_element_def)

lemma doc_update_element: "doc (update_element m f s) = doc s"
  by (simp add: update_element_def)

lemma getAttribute_setAttribute:
  "getAttribute n a (setAttribute m b v s) =
     (if n = m \<and> a = b then Some v else getAttribute n a s)"
  by (simp add: setAttribute_def getAttribute_update_element) (simp add: getAttribute_def)

lemma getAttribute_classList_add: "getAttribute n a (classList_add m c s) = getAttribute n a s"
  by (simp add: classList_add_def getAttribute_update_element) (simp add: getAttribute_def)

lemma getAttribute_classList_remove: "getAttribute n a (classList_remove m c s) = getAttribute n a s"
  by (simp add: classList_remove_def getAttribute_update_element) (simp add: getAttribute_def)

lemma getAttribute_classList_toggle: "getAttribute n a (classList_toggle m c f s) = getAttribute n a s"
  by (simp add: classList_toggle_def getAttribute_classList_add getAttribute_classList_remove)

lemma getAttribute_dispatchEvent: "getAttribute n a (dispatchEvent m nm d s) = getAttribute n a s"
  by (simp add: getAttribute_def dispatchEvent_def)

lemma doc_simps:
  "doc (setAttribute m b v s) = doc s"
  "doc (removeAttribute m b s) = doc s"
  "doc (classList_add m c s) = doc s"
  "doc (classList_remove m c s) = doc s"
  "doc (classList_toggle m c f s) = doc s"
  "doc (set_disabled m x s) = doc s"
  "doc (set_innerHTML m h s) = doc s"
  "doc (set_textContent m h s) = doc s"
  "doc (dispatchEvent m nm d s) = doc s"
  by (simp_all add: setAttribute_def removeAttribute_def classList_add_def classList_remove_def
      classList_toggle_def set_disabled_def set_innerHTML_def set_textContent_def
      dispatchEvent_def doc_update_element)

lemma untoggle_loop_attr:
  "getAttribute n a
     (fold (\<lambda>btn t. if btn \<noteq> button
                    then classList_remove btn ''btn--selected'' (setAttribute btn aria_pressed ''false'' t)
                    else t) xs s) =
   (if a = aria_pressed \<and> n \<in> set xs \<and> n \<noteq> button then Some ''false'' else getAttribute n a s)"
  by (induction xs arbitrary: s)
     (auto simp: getAttribute_classList_remove getAttribute_setAttribute)

lemma untoggle_loop_doc:
  "doc (fold (\<lambda>btn t. if btn \<noteq> button
                    then classList_remove btn ''btn--selected'' (setAttribute btn aria_pressed ''false'' t)
                    else t) xs s) = doc s"
  by (induction xs arbitrary: s) (auto simp: doc_simps)

lemma aria_pressed_neq_group: "data_toggleGroup \<noteq> aria_pressed"
  by (simp add: data_toggleGroup_def aria_pressed_def)

lemma getAttribute_toggle_group:
  "getAttribute n a (toggle_group button g s) =
     (if a = aria_pressed then
        (if n = button then Some ''true''
         else if n \<in> set (querySelectorAll_toggleGroup g s) then Some ''false''
         else getAttribute n a s)
      else getAttribute n a s)"
  by (simp add: toggle_group_def Let_def getAttribute_classList_add getAttribute_setAttribute
      untoggle_loop_attr)

lemma doc_toggle_group: "doc (toggle_group button g s) = doc s"
  by (simp add: toggle_group_def Let_def doc_simps untoggle_loop_doc)

lemma members_toggle_group:
  "querySelectorAll_toggleGroup h (toggle_dispatch button (toggle_group button g s)) =
   querySelectorAll_toggleGroup h s"
  using aria_pressed_neq_group
  by (simp add: querySelectorAll_toggleGroup_def toggle_dispatch_def getAttribute_dispatchEvent
      getAttribute_toggle_group doc_toggle_group doc_simps)

lemma valid_nonempty: "isValidGroupName g \<Longrightarrow> g \<noteq> []"
  by (simp add: isValidGroupName_def)

lemma handleToggle_grouped:
  assumes "getAttribute m data_toggleGroup s = Some g" and "isValidGroupName g"
  shows "handleToggle m s = toggle_dispatch m (toggle_group m g s)"
  using assms valid_nonempty by (simp add: handleToggle_def)

lemmas page_defs = size_page_def group_member_def attach_def empty_page_def blank_def
  data_toggleGroup_def aria_pressed_def

lemma size_members: "querySelectorAll_toggleGroup ''size'' size_page = [11, 12, 13]"
  by (simp add: querySelectorAll_toggleGroup_def getAttribute_def page_defs)

lemma size_valid: "isValidGroupName ''size''"
  by (simp add: isValidGroupName_def is_group_char_def)

text \<open>
  Claim C1.  Let \<open>g\<close> be a valid group name and \<open>m\<close> a member of the group (an element
  of the document whose group attribute is \<open>g\<close>).  After the toggle operation on \<open>m\<close>
  the group has the same members, \<open>m\<close> has pressed = true, every other member has
  pressed = false, and \<open>m\<close> is the only member that is pressed.
\<close>

theorem toggle_group_exclusive:
  assumes "m \<in> set (querySelectorAll_toggleGroup g s)" and "isValidGroupName g"
  shows "querySelectorAll_toggleGroup g (handleToggle m s) = querySelectorAll_toggleGroup g s
    \<and> pressed m (handleToggle m s) = Some ''true''
    \<and> (\<forall>b \<in> set (querySelectorAll_toggleGroup g s).
          b \<noteq> m \<longrightarrow> pressed b (handleToggle m s) = Some ''false'')
    \<and> {b \<in> set (querySelectorAll_toggleGroup g s).
          pressed b (handleToggle m s) = Some ''true''} = {m}"
proof -
  have a: "getAttribute m data_toggleGroup s = Some g"
    using assms(1) by (simp add: querySelectorAll_toggleGroup_def)
  have h: "handleToggle m s = toggle_dispatch m (toggle_group m g s)"
    using a assms(2) by (rule handleToggle_grouped)
  have mem: "querySelectorAll_toggleGroup g (handleToggle m s) = querySelectorAll_toggleGroup g s"
    by (simp add: h members_toggle_group)
  have p: "pressed b (handleToggle m s) =
        (if b = m then Some ''true''
         else if b \<in> set (querySelectorAll_toggleGroup g s) then Some ''false''
         else pressed b s)" for b
    by (simp add: h pressed_def toggle_dispatch_def getAttribute_dispatchEvent
        getAttribute_toggle_group)
  show ?thesis
    using assms(1) by (auto simp: mem p)
qed

text \<open>The group \<open>size\<close>: a toggle of its first member, then of its second.\<close>

theorem toggle_group_exclusive_witness:
  "pressed 11 (handleToggle 11 size_page) = Some ''true''
   \<and> pressed 12 (handleToggle 11 size_page) = Some ''false''
   \<and> pressed 13 (handleToggle 11 size_page) = Some ''false''
   \<and> pressed 12 (handleToggle 12 (handleToggle 11 size_page)) = Some ''true''
   \<and> pressed 11 (handleToggle 12 (handleToggle 11 size_page)) = Some ''false''
   \<and> pressed 13 (handleToggle 12 (handleToggle 11 size_page)) = Some ''false''"
proof -
  have m1: "11 \<in> set (querySelectorAll_toggleGroup ''size'' size_page)"
    by (simp add: size_members)
  have t1: "querySelectorAll_toggleGroup ''size'' (handleToggle 11 size_page) = [11, 12, 13]"
    "pressed 11 (handleToggle 11 size_page) = Some ''true''"
    "pressed 12 (handleToggle 11 size_page) = Some ''false''"
    "pressed 13 (handleToggle 11 size_page) = Some ''false''"
    using toggle_group_exclusive [OF m1 size_valid] by (simp_all add: size_members)
  have m2: "12 \<in> set (querySelectorAll_toggleGroup ''size'' (handleToggle 11 size_page))"
    by (simp add: t1(1))
  have t2: "pressed 12 (handleToggle 12 (handleToggle 11 size_page)) = Some ''true''"
    "pressed 11 (handleToggle 12 (handleToggle 11 size_page)) = Some ''false''"
    "pressed 13 (handleToggle 12 (handleToggle 11 size_page)) = Some ''false''"
    using toggle_group_exclusive [OF m2 size_valid] by (simp_all add: t1(1))
  show ?thesis
    using t1 t2 by simp
qed

text \<open>
  Claim C7, as stated, fails for the empty group name: it does not pass the whitelist,
  yet a toggle whose group attribute is empty is handled as an ungrouped toggle, so its
  pressed attribute flips and a toggle event is dispatched.
\<close>

theorem empty_group_name_counterexample:
  "\<not> isValidGroupName []
   \<and> getAttribute 14 data_toggleGroup odd_page = Some []
   \<and> pressed 14 odd_page = None
   \<and> pressed 14 (handleToggle 14 odd_page) = Some ''true''
   \<and> events odd_page = []
   \<and> events (handleToggle 14 odd_page) = [(14, ''toggle'', PressedDetail True)]"
proof -
  have a: "getAttribute 14 data_toggleGroup odd_page = Some []"
    and b: "getAttribute 14 aria_pressed odd_page = None"
    and c: "events odd_page = []"
    by (simp_all add: getAttribute_def odd_page_def page_defs)
  have h: "handleToggle 14 odd_page = toggle_dispatch 14 (toggle_single 14 odd_page)"
    by (simp add: handleToggle_def a)
  have p: "getAttribute 14 aria_pressed (toggle_single 14 odd_page) = Some ''true''"
    by (simp add: toggle_single_def Let_def b getAttribute_classList_toggle
        getAttribute_setAttribute String_of_bool_def)
  have e: "events (toggle_single 14 odd_page) = events odd_page"
    by (simp add: toggle_single_def Let_def classList_toggle_def classList_add_def
        classList_remove_def setAttribute_def update_element_def)
  show ?thesis
    by (simp add: isValidGroupName_def a b c h p e pressed_def toggle_dispatch_def
        getAttribute_dispatchEvent) (simp add: dispatchEvent_def e c)
qed

text \<open>
  Claim C7, amended.  For a group name that fails the whitelist, \<open>setGroupValue\<close> leaves
  the whole state as it is, and so does the toggle operation on a widget that carries the
  name, provided the name is not empty: no attribute changes and no event is dispatched.
\<close>

theorem invalid_group_noop:
  assumes "\<not> isValidGroupName g"
  shows "(g \<noteq> [] \<and> getAttribute b data_toggleGroup s = Some g \<longrightarrow> handleToggle b s = s)
         \<and> setGroupValue g a s = s"
  using assms by (simp add: handleToggle_def setGroupValue_def)

text \<open>The group name \<open>a b\<close>, and the empty name passed to \<open>setGroupValue\<close>.\<close>

theorem invalid_group_noop_witness:
  "\<not> isValidGroupName ''a b''
   \<and> getAttribute 15 data_toggleGroup odd_page = Some ''a b''
   \<and> handleToggle 15 odd_page = odd_page
   \<and> setGroupValue ''a b'' (Some 15) odd_page = odd_page
   \<and> setGroupValue [] (Some 14) odd_page = odd_page"
proof -
  have h: "\<not> isValidGroupName ''a b''" "\<not> isValidGroupName []"
    by (simp_all add: isValidGroupName_def is_group_char_def)
  have a: "getAttribute 15 data_toggleGroup odd_page = Some ''a b''"
    by (simp add: getAttribute_def odd_page_def page_defs)
  show ?thesis
    using h a invalid_group_noop [OF h(1), of 15 odd_page "Some 15"]
      invalid_group_noop [OF h(2), of 14 odd_page "Some 14"]
    by simp
qed

section \<open>Setting the active member of a group\<close>

lemma setGroup_loop_attr:
  "getAttribute n a
     (fold (\<lambda>btn t. classList_toggle btn ''btn--selected'' (P btn)
                         (setAttribute btn aria_pressed (String_of_bool (P btn)) t)) xs s) =
   (if a = aria_pressed \<and> n \<in> set xs then Some (String_of_bool (P n))
    else getAttribute n a s)"
  by (induction xs arbitrary: s)
     (auto simp: getAttribute_classList_toggle getAttribute_setAttribute)

lemma setGroup_loop_doc:
  "doc (fold (\<lambda>btn t. classList_toggle btn ''btn--selected'' (P btn)
                         (setAttribute btn aria_pressed (String_of_bool (P btn)) t)) xs s) = doc s"
  by (induction xs arbitrary: s) (auto simp: doc_simps)

lemma getAttribute_setGroupValue:
  "isValidGroupName g \<Longrightarrow>
   getAttribute n a (setGroupValue g w s) =
     (if a = aria_pressed \<and> n \<in> set (querySelectorAll_toggleGroup g s)
      then Some (String_of_bool (Some n = w)) else getAttribute n a s)"
  by (cases w)
     (simp_all add: setGroupValue_def Let_def setGroup_loop_attr getAttribute_dispatchEvent)

lemma doc_setGroupValue: "doc (setGroupValue g w s) = doc s"
  by (cases w) (simp_all add: setGroupValue_def Let_def setGroup_loop_doc doc_simps)

lemma members_setGroupValue:
  "isValidGroupName g \<Longrightarrow>
   querySelectorAll_toggleGroup h (setGroupValue g w s) = querySelectorAll_toggleGroup h s"
  using aria_pressed_neq_group
  by (simp add: querySelectorAll_toggleGroup_def getAttribute_setGroupValue doc_setGroupValue)

text \<open>
  Claim C8, as stated, fails for a widget that is not a member of the group: every
  member ends with pressed = false, and the widget itself is not touched.
\<close>

theorem setGroupValue_outsider_counterexample:
  "isValidGroupName ''size''
   \<and> querySelectorAll_toggleGroup ''size'' (setGroupValue ''size'' (Some 19) size_page) = [11, 12, 13]
   \<and> pressed 11 (setGroupValue ''size'' (Some 19) size_page) = Some ''false''
   \<and> pressed 12 (setGroupValue ''size'' (Some 19) size_page) = Some ''false''
   \<and> pressed 13 (setGroupValue ''size'' (Some 19) size_page) = Some ''false''
   \<and> pressed 19 (setGroupValue ''size'' (Some 19) size_page) = None"
  using size_valid
  by (simp add: members_setGroupValue size_members pressed_def getAttribute_setGroupValue
      String_of_bool_def)
     (simp add: getAttribute_def page_defs)

text \<open>
  Claim C8, amended.  For a valid group name \<open>g\<close>, \<open>setGroupValue(g, w)\<close> keeps the
  members of the group and gives each member the pressed value true if it is \<open>w\<close> and
  false otherwise.  So when \<open>w\<close> is a member it is the one pressed member; when it is
  not, no member is pressed and the pressed attribute of \<open>w\<close> is left as it was.
\<close>

theorem setGroupValue_member:
  assumes "isValidGroupName g"
  shows "querySelectorAll_toggleGroup g (setGroupValue g (Some w) s) =
           querySelectorAll_toggleGroup g s
    \<and> (\<forall>b \<in> set (querySelectorAll_toggleGroup g s).
          pressed b (setGroupValue g (Some w) s) = Some (if b = w then ''true'' else ''false''))
    \<and> (w \<in> set (querySelectorAll_toggleGroup g s) \<longrightarrow>
          {b \<in> set (querySelectorAll_toggleGroup g s).
             pressed b (setGroupValue g (Some w) s) = Some ''true''} = {w})
    \<and> (w \<notin> set (querySelectorAll_toggleGroup g s) \<longrightarrow>
          pressed w (setGroupValue g (Some w) s) = pressed w s
          \<and> {b \<in> set (querySelectorAll_toggleGroup g s).
             pressed b (setGroupValue g (Some w) s) = Some ''true''} = {})"
  using assms
  by (auto simp: members_setGroupValue pressed_def getAttribute_setGroupValue String_of_bool_def)

text \<open>The second member of the group \<open>size\<close> made the active one.\<close>

theorem setGroupValue_member_witness:
  "isValidGroupName ''size''
   \<and> 12 \<in> set (querySelectorAll_toggleGroup ''size'' size_page)
   \<and> pressed 11 (setGroupValue ''size'' (Some 12) size_page) = Some ''false''
   \<and> pressed 12 (setGroupValue ''size'' (Some 12) size_page) = Some ''true''
   \<and> pressed 13 (setGroupValue ''size'' (Some 12) size_page) = Some ''false''
   \<and> {b \<in> set (querySelectorAll_toggleGroup ''size'' size_page).
         pressed b (setGroupValue ''size'' (Some 12) size_page) = Some ''true''} = {12}"
  using setGroupValue_member [OF size_valid, of 12 size_page]
  by (simp add: size_members size_valid)


section \<open>Loading sessions, cancellation and detached widgets\<close>

lemmas elem_ops = update_element_def setAttribute_def removeAttribute_def classList_add_def
  classList_remove_def classList_toggle_def classList_contains_def set_disabled_def
  set_innerHTML_def set_textContent_def getAttribute_def

lemmas loading_ops = resetLoadingState_def discard_bookkeeping_def store_original_def
  apply_loading_def start_timeout_def clearExisting_def clearTimeout_def setTimeout_def
  announce_def dispatchEvent_def isElementConnected_def announceDelay_def

lemma find_fresh:
  "list_all (\<lambda>x. tid x \<le> n) xs \<Longrightarrow> n < t \<Longrightarrow> find (\<lambda>x. tid x = t) (filter P xs) = None"
  by (induction xs) auto

lemma find_append:
  "find P (xs @ ys) = (case find P xs of None \<Rightarrow> find P ys | Some x \<Rightarrow> Some x)"
  by (induction xs) auto

lemma clearExisting_removes:
  "buttonTimeouts x w = Some t \<Longrightarrow> t \<noteq> 0 \<Longrightarrow> \<not> pending t (clearExisting w x)"
  by (auto simp: pending_def clearExisting_def clearTimeout_def)

lemma clearExisting_frame:
  "events (clearExisting w x) = events x"
  "doc (clearExisting w x) = doc x"
  "elems (clearExisting w x) = elems x"
  "liveRegion (clearExisting w x) = liveRegion x"
  "timer_count (clearExisting w x) = timer_count x"
  "buttonTimeouts (clearExisting w x) = buttonTimeouts x"
  "buttonOriginalContent (clearExisting w x) = buttonOriginalContent x"
  "promises (clearExisting w x) = promises x"
  "i18n_complete (clearExisting w x) = i18n_complete x"
  by (auto simp: clearExisting_def clearTimeout_def split: option.splits)

lemma timers_wf_clearExisting: "timers_wf x \<Longrightarrow> timers_wf (clearExisting w x)"
  by (auto simp: timers_wf_def clearExisting_def clearTimeout_def list_all_iff split: option.splits)

lemma reset_events:
  "events (resetLoadingState w x) = events x @ [(w, ''loadingComplete'', EmptyDetail)]"
  by (auto simp: loading_ops elem_ops Let_def split: option.splits)

lemma reset_timers:
  "timers (resetLoadingState w x) =
     timers x @ (case liveRegion x of None \<Rightarrow> []
                 | Some r \<Rightarrow> [\<lparr>tid = Suc (timer_count x), due = now x + 150,
                                cb = AnnounceSet (i18n_complete x)\<rparr>])"
  by (auto simp: loading_ops elem_ops Let_def split: option.splits)

lemma reset_frame:
  "doc (resetLoadingState w x) = doc x"
  "buttonTimeouts (resetLoadingState w x) = (buttonTimeouts x)(w := None)"
  "buttonOriginalContent (resetLoadingState w x) = (buttonOriginalContent x)(w := None)"
  "promises (resetLoadingState w x) = promises x"
  "liveRegion (resetLoadingState w x) = liveRegion x"
  "timer_count (resetLoadingState w x) =
     (case liveRegion x of None \<Rightarrow> timer_count x | Some r \<Rightarrow> Suc (timer_count x))"
  by (auto simp: loading_ops elem_ops Let_def split: option.splits)

lemma count_snoc:
  "events y = events x @ [(w, ''loadingComplete'', EmptyDetail)] \<Longrightarrow>
   loadingComplete_count w y = Suc (loadingComplete_count w x)"
  by (simp add: loadingComplete_count_def)

lemma count_same: "events y = events x \<Longrightarrow> loadingComplete_count w y = loadingComplete_count w x"
  by (simp add: loadingComplete_count_def)

lemma cancel_connected:
  "isElementConnected w x \<Longrightarrow>
   cancelLoading (Some w) x = resetLoadingState w (clearExisting w x)"
  by (simp add: cancelLoading_def Let_def isElementConnected_def clearExisting_frame)

lemma fire_timer_found:
  "find (\<lambda>x. tid x = t) (timers s) = Some x \<Longrightarrow>
   fire_timer t s = run_callback (cb x) (clearTimeout t s)"
  by (simp add: fire_timer_def)

lemma fire_timer_absent: "\<not> pending t s \<Longrightarrow> fire_timer t s = s"
proof -
  assume "\<not> pending t s"
  then have "find (\<lambda>x. tid x = t) (timers s) = None"
    by (auto simp: pending_def find_None_iff)
  then show ?thesis by (simp add: fire_timer_def)
qed

lemma announce_sched:
  "timers (announce m x) = timers x @ announce_timer m x"
  "timer_count (announce m x) = timer_count x + length (announce_timer m x)"
  by (auto simp: announce_timer_def announce_def setTimeout_def announceDelay_def elem_ops
      split: option.splits)

lemma announce_frame:
  "events (announce m x) = events x"
  "doc (announce m x) = doc x"
  "buttonTimeouts (announce m x) = buttonTimeouts x"
  "buttonOriginalContent (announce m x) = buttonOriginalContent x"
  "liveRegion (announce m x) = liveRegion x"
  "now (announce m x) = now x"
  "promises (announce m x) = promises x"
  "i18n_complete (announce m x) = i18n_complete x"
  by (auto simp: announce_def setTimeout_def elem_ops split: option.splits)

lemma store_original_frame:
  "timers (store_original b x) = timers x"
  "timer_count (store_original b x) = timer_count x"
  "events (store_original b x) = events x"
  "doc (store_original b x) = doc x"
  "buttonTimeouts (store_original b x) = buttonTimeouts x"
  "liveRegion (store_original b x) = liveRegion x"
  "now (store_original b x) = now x"
  "i18n_loading (store_original b x) = i18n_loading x"
  "promises (store_original b x) = promises x"
  "i18n_complete (store_original b x) = i18n_complete x"
  by (simp_all add: store_original_def)

lemma apply_loading_frame:
  "timers (apply_loading b x) = timers x"
  "timer_count (apply_loading b x) = timer_count x"
  "events (apply_loading b x) = events x"
  "doc (apply_loading b x) = doc x"
  "buttonTimeouts (apply_loading b x) = buttonTimeouts x"
  "liveRegion (apply_loading b x) = liveRegion x"
  "now (apply_loading b x) = now x"
  "i18n_loading (apply_loading b x) = i18n_loading x"
  "promises (apply_loading b x) = promises x"
  "i18n_complete (apply_loading b x) = i18n_complete x"
  by (simp_all add: apply_loading_def elem_ops)

lemma start_timeout_sched:
  "timers (start_timeout b c d x) =
     timers x @ [\<lparr>tid = Suc (timer_count x), due = now x + nat d, cb = c\<rparr>]"
  "timer_count (start_timeout b c d x) = Suc (timer_count x)"
  "buttonTimeouts (start_timeout b c d x) = (buttonTimeouts x)(b \<mapsto> Suc (timer_count x))"
  "events (start_timeout b c d x) = events x"
  "doc (start_timeout b c d x) = doc x"
  "promises (start_timeout b c d x) = promises x"
  "liveRegion (start_timeout b c d x) = liveRegion x"
  "i18n_complete (start_timeout b c d x) = i18n_complete x"
  by (simp_all add: start_timeout_def setTimeout_def)

lemma clearExisting_none: "buttonTimeouts x w = None \<Longrightarrow> clearExisting w x = x"
  by (simp add: clearExisting_def)

lemma settle_frame:
  "events (settle p v x) = events x"
  "timers (settle p v x) = timers x"
  "timer_count (settle p v x) = timer_count x"
  "doc (settle p v x) = doc x"
  "buttonTimeouts (settle p v x) = buttonTimeouts x"
  "buttonOriginalContent (settle p v x) = buttonOriginalContent x"
  "elems (settle p v x) = elems x"
  by (simp_all add: settle_def)

lemma clearTimeout_frame:
  "events (clearTimeout t x) = events x"
  "timer_count (clearTimeout t x) = timer_count x"
  "doc (clearTimeout t x) = doc x"
  "liveRegion (clearTimeout t x) = liveRegion x"
  "buttonTimeouts (clearTimeout t x) = buttonTimeouts x"
  "buttonOriginalContent (clearTimeout t x) = buttonOriginalContent x"
  "elems (clearTimeout t x) = elems x"
  "promises (clearTimeout t x) = promises x"
  "timers (clearTimeout t x) = filter (\<lambda>y. tid y \<noteq> t) (timers x)"
  by (simp_all add: clearTimeout_def)

lemma run_loading_callback:
  assumes "is_loading_callback w c" and "isElementConnected w x"
  shows "events (run_callback c x) = events (resetLoadingState w x)"
    and "timers (run_callback c x) = timers (resetLoadingState w x)"
    and "buttonTimeouts (run_callback c x) = buttonTimeouts (resetLoadingState w x)"
    and "doc (run_callback c x) = doc (resetLoadingState w x)"
    and "timer_count (run_callback c x) = timer_count (resetLoadingState w x)"
  using assms
  by (cases c; simp add: is_loading_callback_def run_callback_def settle_frame)+

lemma in_sessionD:
  assumes "in_session w t x"
  obtains T where "find (\<lambda>y. tid y = t) (timers x) = Some T" and "is_loading_callback w (cb T)"
    and "t \<le> timer_count x" and "pending t x"
proof -
  from assms obtain T where f: "find (\<lambda>y. tid y = t) (timers x) = Some T"
    and c: "is_loading_callback w (cb T)"
    by (auto simp: in_session_def split: option.splits)
  from f have m: "T \<in> set (timers x)" and i: "tid T = t"
    by (auto simp: find_Some_iff in_set_conv_nth)
  from assms have "timers_wf x" by (simp add: in_session_def)
  with m i have "t \<le> timer_count x" by (auto simp: timers_wf_def list_all_iff)
  moreover have "pending t x" using m i by (auto simp: pending_def)
  ultimately show ?thesis using that f c by blast
qed

lemma not_pending_after_reset:
  assumes "t \<le> timer_count y" and "\<not> pending t y"
  shows "\<not> pending t (resetLoadingState w y)"
  using assms by (auto simp: pending_def reset_timers split: option.splits)

lemma not_pending_clearTimeout: "\<not> pending t (clearTimeout t x)"
  by (auto simp: pending_def clearTimeout_def)

lemma session_natural:
  assumes "in_session w t x"
  shows "events (fire_timer t x) = events x @ [(w, ''loadingComplete'', EmptyDetail)]"
    and "\<not> pending t (fire_timer t x)"
    and "buttonTimeouts (fire_timer t x) w = None"
    and "isElementConnected w (fire_timer t x)"
proof -
  from assms obtain T where f: "find (\<lambda>y. tid y = t) (timers x) = Some T"
    and c: "is_loading_callback w (cb T)" and le: "t \<le> timer_count x"
    by (rule in_sessionD)
  have conn: "isElementConnected w (clearTimeout t x)"
    using assms by (simp add: in_session_def isElementConnected_def clearTimeout_frame)
  have ft: "fire_timer t x = run_callback (cb T) (clearTimeout t x)"
    using f by (rule fire_timer_found)
  show "events (fire_timer t x) = events x @ [(w, ''loadingComplete'', EmptyDetail)]"
    by (simp add: ft run_loading_callback [OF c conn] reset_events clearTimeout_frame)
  have "\<not> pending t (resetLoadingState w (clearTimeout t x))"
    using le by (intro not_pending_after_reset not_pending_clearTimeout)
                (simp add: clearTimeout_frame)
  then show "\<not> pending t (fire_timer t x)"
    by (simp add: pending_def ft run_loading_callback [OF c conn])
  show "buttonTimeouts (fire_timer t x) w = None"
    by (simp add: ft run_loading_callback [OF c conn] reset_frame)
  show "isElementConnected w (fire_timer t x)"
    using conn
    by (simp add: isElementConnected_def ft run_loading_callback [OF c conn] reset_frame)
qed

lemma session_cancel:
  assumes "in_session w t x"
  shows "events (cancelLoading (Some w) x) = events x @ [(w, ''loadingComplete'', EmptyDetail)]"
    and "\<not> pending t (cancelLoading (Some w) x)"
proof -
  from assms obtain T where le: "t \<le> timer_count x"
    by (rule in_sessionD)
  have conn: "isElementConnected w x" and bt: "buttonTimeouts x w = Some t" and nz: "t \<noteq> 0"
    using assms by (simp_all add: in_session_def)
  show "events (cancelLoading (Some w) x) = events x @ [(w, ''loadingComplete'', EmptyDetail)]"
    by (simp add: cancel_connected [OF conn] reset_events clearExisting_frame)
  have "\<not> pending t (resetLoadingState w (clearExisting w x))"
    using le clearExisting_removes [OF bt nz]
    by (intro not_pending_after_reset) (simp_all add: clearExisting_frame)
  then show "\<not> pending t (cancelLoading (Some w) x)"
    by (simp add: cancel_connected [OF conn])
qed

lemma connected_cancel_events:
  "isElementConnected w x \<Longrightarrow>
   events (cancelLoading (Some w) x) = events x @ [(w, ''loadingComplete'', EmptyDetail)]"
  by (simp add: cancel_connected reset_events clearExisting_frame)

lemma setLoading_element:
  "snd (setLoading (Element w) d x) =
     start_timeout w (SetLoadingExpire w (length (promises x)))
       (clamp (case d of None \<Rightarrow> loadingDuration | Some d \<Rightarrow> d) minDuration maxDuration)
       (announce (i18n_loading x)
          (apply_loading w (clearExisting w
             (store_original w (x\<lparr>promises := promises x @ [Pending]\<rparr>)))))"
  by (simp add: setLoading_def Let_def apply_loading_frame store_original_frame
      clearExisting_def clearTimeout_def split: option.splits)

lemma start_timeout_session:
  assumes "timers_wf y" and "isElementConnected w y" and "is_loading_callback w c"
  shows "in_session w (Suc (timer_count y)) (start_timeout w c d y)"
proof -
  have "find (\<lambda>z. tid z = Suc (timer_count y)) (timers y) = None"
    using assms(1) find_fresh [of "timer_count y" "timers y" "Suc (timer_count y)" "\<lambda>_. True"]
    by (simp add: timers_wf_def)
  then show ?thesis
    using assms
    by (auto simp: in_session_def start_timeout_sched timers_wf_def isElementConnected_def
        find_append list_all_iff)
qed

lemma timers_wf_announce: "timers_wf y \<Longrightarrow> timers_wf (announce m y)"
  by (auto simp: timers_wf_def announce_sched announce_timer_def list_all_iff split: option.splits)

lemma handleLoading_unfold:
  "\<not> classList_contains w ''btn--loading'' s \<Longrightarrow>
   handleLoading w s =
     start_timeout w (LoadingExpire w)
       (parseDuration (getAttribute w data_loadingDuration s) loadingDuration)
       (clearExisting w (announce (i18n_loading s) (apply_loading w (store_original w s))))"
  by (simp add: handleLoading_def Let_def apply_loading_frame store_original_frame)

lemma handleLoading_starts:
  assumes "timers_wf s" and "isElementConnected w s"
    and "\<not> classList_contains w ''btn--loading'' s"
  shows "in_session w (timer_count (handleLoading w s)) (handleLoading w s)"
    and "events (handleLoading w s) = events s"
proof -
  let ?y = "clearExisting w (announce (i18n_loading s) (apply_loading w (store_original w s)))"
  have "timers_wf (apply_loading w (store_original w s))"
    using assms(1) by (simp add: timers_wf_def apply_loading_frame store_original_frame)
  then have wf: "timers_wf ?y"
    by (intro timers_wf_clearExisting timers_wf_announce)
  have conn: "isElementConnected w ?y"
    using assms(2)
    by (simp add: isElementConnected_def clearExisting_frame announce_frame apply_loading_frame
        store_original_frame)
  have "in_session w (Suc (timer_count ?y)) (start_timeout w (LoadingExpire w)
       (parseDuration (getAttribute w data_loadingDuration s) loadingDuration) ?y)"
    using wf conn by (rule start_timeout_session) (simp add: is_loading_callback_def)
  then show "in_session w (timer_count (handleLoading w s)) (handleLoading w s)"
    by (simp add: handleLoading_unfold [OF assms(3)] start_timeout_sched)
  show "events (handleLoading w s) = events s"
    by (simp add: handleLoading_unfold [OF assms(3)] start_timeout_sched clearExisting_frame
        announce_frame apply_loading_frame store_original_frame)
qed

text \<open>
  The invariant of the timer table holds on a fresh page and is kept by every operation
  that touches the timers, and by the passing of time.
\<close>

lemma timers_wf_reset: "timers_wf x \<Longrightarrow> timers_wf (resetLoadingState w x)"
  by (auto simp: timers_wf_def reset_timers reset_frame list_all_iff split: option.splits)

lemma timers_wf_same:
  "timers_wf x \<Longrightarrow> timers y = timers x \<Longrightarrow> timer_count y = timer_count x \<Longrightarrow> timers_wf y"
  by (simp add: timers_wf_def)

lemma timers_wf_run_callback: "timers_wf x \<Longrightarrow> timers_wf (run_callback c x)"
proof (cases c)
  case (LoadingExpire b)
  then show "timers_wf x \<Longrightarrow> ?thesis"
    by (simp add: run_callback_def timers_wf_reset)
       (simp add: timers_wf_def discard_bookkeeping_def)
next
  case (SetLoadingExpire b p)
  assume wf: "timers_wf x"
  have "timers_wf (if isElementConnected b x then resetLoadingState b x
                   else discard_bookkeeping b x)"
    using wf by (simp add: timers_wf_reset) (simp add: timers_wf_def discard_bookkeeping_def)
  then show ?thesis
    using SetLoadingExpire by (simp add: run_callback_def timers_wf_def settle_frame)
next
  case (AutoDisableExpire b)
  then show "timers_wf x \<Longrightarrow> ?thesis"
    by (simp add: run_callback_def timers_wf_def elem_ops Let_def)
next
  case (AnnounceSet m)
  then show "timers_wf x \<Longrightarrow> ?thesis"
    by (simp add: run_callback_def timers_wf_def elem_ops split: option.splits)
qed

lemma timers_wf_clearTimeout: "timers_wf x \<Longrightarrow> timers_wf (clearTimeout t x)"
  by (auto simp: timers_wf_def clearTimeout_def list_all_iff)

lemma timers_wf_fire_timer: "timers_wf x \<Longrightarrow> timers_wf (fire_timer t x)"
  by (simp add: fire_timer_def timers_wf_run_callback timers_wf_clearTimeout
      split: option.splits)

lemma timers_wf_fold_fire:
  "timers_wf x \<Longrightarrow> timers_wf (fold (\<lambda>y. fire_timer (tid y)) xs x)"
  by (induction xs arbitrary: x) (simp_all add: timers_wf_fire_timer)

lemma timers_wf_advance: "timers_wf x \<Longrightarrow> timers_wf (advance n x)"
proof (induction n arbitrary: x)
  case 0
  then show ?case by simp
next
  case (Suc n)
  have "timers_wf (x\<lparr>now := Suc (now x)\<rparr>)"
    using Suc.prems by (simp add: timers_wf_def)
  then have "timers_wf (fire_due (x\<lparr>now := Suc (now x)\<rparr>))"
    unfolding fire_due_def by (rule timers_wf_fold_fire)
  then show ?case using Suc.IH by simp
qed

lemma timers_wf_start_timeout: "timers_wf y \<Longrightarrow> timers_wf (start_timeout w c d y)"
  by (auto simp: timers_wf_def start_timeout_sched list_all_iff)

lemma timers_wf_cancelLoading: "timers_wf x \<Longrightarrow> timers_wf (cancelLoading h x)"
proof (cases h)
  case None
  then show "timers_wf x \<Longrightarrow> ?thesis" by (simp add: cancelLoading_def)
next
  case (Some b)
  assume "timers_wf x"
  then have wf: "timers_wf (clearExisting b x)" by (rule timers_wf_clearExisting)
  then have "timers_wf (discard_bookkeeping b (clearExisting b x))"
    by (simp add: timers_wf_def discard_bookkeeping_def)
  then show ?thesis
    using Some wf by (simp add: cancelLoading_def Let_def timers_wf_reset)
qed

lemma timers_wf_handleLoading: "timers_wf x \<Longrightarrow> timers_wf (handleLoading w x)"
proof (cases "classList_contains w ''btn--loading'' x")
  case True
  then show "timers_wf x \<Longrightarrow> ?thesis" by (simp add: handleLoading_def)
next
  case False
  assume "timers_wf x"
  then have "timers_wf (apply_loading w (store_original w x))"
    by (simp add: timers_wf_def apply_loading_frame store_original_frame)
  then show ?thesis
    unfolding handleLoading_unfold [OF False]
    by (intro timers_wf_start_timeout timers_wf_clearExisting timers_wf_announce)
qed

lemma timers_wf_handleAutoDisable: "timers_wf x \<Longrightarrow> timers_wf (handleAutoDisable w x)"
proof -
  assume "timers_wf x"
  then have "timers_wf (clearExisting w x)" by (rule timers_wf_clearExisting)
  then have "timers_wf (setAttribute w aria_disabled ''true''
      (set_disabled w True (clearExisting w x)))"
    by (simp add: timers_wf_def elem_ops)
  then show ?thesis
    by (simp add: handleAutoDisable_def Let_def timers_wf_start_timeout)
qed

lemma timers_wf_setLoading: "timers_wf x \<Longrightarrow> timers_wf (snd (setLoading h d x))"
proof (cases h)
  case (Element w)
  assume "timers_wf x"
  then have "timers_wf (store_original w (x\<lparr>promises := promises x @ [Pending]\<rparr>))"
    by (simp add: timers_wf_def store_original_frame)
  then have "timers_wf (clearExisting w
      (store_original w (x\<lparr>promises := promises x @ [Pending]\<rparr>)))"
    by (rule timers_wf_clearExisting)
  then have "timers_wf (apply_loading w (clearExisting w
      (store_original w (x\<lparr>promises := promises x @ [Pending]\<rparr>))))"
    by (simp add: timers_wf_def apply_loading_frame)
  then show ?thesis
    unfolding Element setLoading_element
    by (intro timers_wf_start_timeout timers_wf_announce)
next
  case Null
  then show "timers_wf x \<Longrightarrow> ?thesis"
    by (simp add: setLoading_def Let_def timers_wf_def settle_def)
next
  case NotElement
  then show "timers_wf x \<Longrightarrow> ?thesis"
    by (simp add: setLoading_def Let_def timers_wf_def settle_def)
qed

lemma timers_wf_empty_page: "timers_wf empty_page"
  by (simp add: timers_wf_def empty_page_def)

lemmas loading_page_defs = loading_page_def loading_button_def createLiveRegion_def attach_def
  empty_page_def blank_def

lemma loading_page_facts:
  "timers_wf loading_page"
  "isElementConnected 21 loading_page"
  "isElementConnected 22 loading_page"
  "\<not> classList_contains 21 ''btn--loading'' loading_page"
  "events loading_page = []"
  "timers loading_page = []"
  "timer_count loading_page = 0"
  "liveRegion loading_page = Some 100"
  "promises loading_page = []"
  "buttonTimeouts loading_page = Map.empty"
  "buttonOriginalContent loading_page = Map.empty"
  "disabled (elems loading_page 22) = True"
  "i18n_complete loading_page = ''Action completed''"
  "now loading_page = 0"
  by (simp_all add: loading_page_defs timers_wf_def isElementConnected_def classList_contains_def)

lemma handleLoading_page_count: "timer_count (handleLoading 21 loading_page) = 2"
  by (simp add: handleLoading_unfold loading_page_facts start_timeout_sched clearExisting_frame
      announce_sched announce_timer_def apply_loading_frame store_original_frame)

lemma run_callback_detached:
  assumes "\<not> isElementConnected w s" and "is_widget_callback w c"
  shows "elems (run_callback c s) = elems s"
    and "events (run_callback c s) = events s"
    and "doc (run_callback c s) = doc s"
    and "timers (run_callback c s) = timers s"
    and "buttonTimeouts (run_callback c s) = (buttonTimeouts s)(w := None)"
    and "buttonOriginalContent (run_callback c s) =
           (if is_loading_callback w c then (buttonOriginalContent s)(w := None)
            else buttonOriginalContent s)"
  using assms
  by (cases c; simp add: is_widget_callback_def is_loading_callback_def run_callback_def
      discard_bookkeeping_def settle_frame)+

text \<open>
  Claim C5.  Let \<open>w\<close> be disconnected.  When a pending loading or auto-disable timer of
  \<open>w\<close> fires, no element changes (no attribute, class, disabled flag, markup or text, of
  \<open>w\<close> or of any other node), no event is dispatched and nothing is announced; the timer
  leaves the pending list, the entry of \<open>w\<close> in \<open>buttonTimeouts\<close> is deleted, and for a
  loading timer the snapshot of \<open>w\<close> as well.  \<open>cancelLoading\<close> on \<open>w\<close> likewise changes
  no element and dispatches nothing; it clears the pending timer of \<open>w\<close> and deletes
  both entries.  Every path is a total function of the state: none of them can throw.
\<close>

theorem detached_widget_untouched:
  assumes "\<not> isElementConnected w s"
  shows "(find (\<lambda>y. tid y = t) (timers s) = Some T \<and> is_widget_callback w (cb T) \<longrightarrow>
           elems (fire_timer t s) = elems s
         \<and> events (fire_timer t s) = events s
         \<and> doc (fire_timer t s) = doc s
         \<and> timers (fire_timer t s) = filter (\<lambda>y. tid y \<noteq> t) (timers s)
         \<and> buttonTimeouts (fire_timer t s) = (buttonTimeouts s)(w := None)
         \<and> buttonOriginalContent (fire_timer t s) =
             (if is_loading_callback w (cb T) then (buttonOriginalContent s)(w := None)
              else buttonOriginalContent s))
    \<and> elems (cancelLoading (Some w) s) = elems s
    \<and> events (cancelLoading (Some w) s) = events s
    \<and> doc (cancelLoading (Some w) s) = doc s
    \<and> timers (cancelLoading (Some w) s) = timers (clearExisting w s)
    \<and> (buttonTimeouts s w = Some t \<and> t \<noteq> 0 \<longrightarrow> \<not> pending t (cancelLoading (Some w) s))
    \<and> buttonTimeouts (cancelLoading (Some w) s) = (buttonTimeouts s)(w := None)
    \<and> buttonOriginalContent (cancelLoading (Some w) s) = (buttonOriginalContent s)(w := None)"
proof -
  have d: "\<not> isElementConnected w (clearTimeout t s)"
    using assms by (simp add: isElementConnected_def clearTimeout_frame)
  have f: "elems (fire_timer t s) = elems s
         \<and> events (fire_timer t s) = events s
         \<and> doc (fire_timer t s) = doc s
         \<and> timers (fire_timer t s) = filter (\<lambda>y. tid y \<noteq> t) (timers s)
         \<and> buttonTimeouts (fire_timer t s) = (buttonTimeouts s)(w := None)
         \<and> buttonOriginalContent (fire_timer t s) =
             (if is_loading_callback w (cb T) then (buttonOriginalContent s)(w := None)
              else buttonOriginalContent s)"
    if "find (\<lambda>y. tid y = t) (timers s) = Some T" and c: "is_widget_callback w (cb T)"
    using run_callback_detached [OF d c]
    by (simp add: fire_timer_found [OF that(1)] clearTimeout_frame)
  have k: "cancelLoading (Some w) s = discard_bookkeeping w (clearExisting w s)"
    using assms
    by (simp add: cancelLoading_def Let_def isElementConnected_def clearExisting_frame)
  have p: "\<not> pending t (cancelLoading (Some w) s)" if "buttonTimeouts s w = Some t" "t \<noteq> 0"
    using clearExisting_removes [OF that]
    by (simp add: k pending_def discard_bookkeeping_def)
  show ?thesis
    using f p by (simp add: k discard_bookkeeping_def clearExisting_frame)
qed

lemma loading_widget_callback: "is_loading_callback w c \<Longrightarrow> is_widget_callback w c"
  by (cases c) (simp_all add: is_loading_callback_def is_widget_callback_def)

lemma page_session: "in_session 21 2 (handleLoading 21 loading_page)"
  using handleLoading_starts(1) [of loading_page 21]
  by (simp add: loading_page_facts handleLoading_page_count)

text \<open>The loading button of the example page, removed while its timer is pending.\<close>

theorem detached_widget_untouched_witness:
  "\<not> isElementConnected 21 detached_page
   \<and> buttonTimeouts detached_page 21 = Some 2
   \<and> pending 2 detached_page
   \<and> elems (fire_timer 2 detached_page) = elems detached_page
   \<and> events (fire_timer 2 detached_page) = events detached_page
   \<and> buttonTimeouts (fire_timer 2 detached_page) 21 = None
   \<and> buttonOriginalContent (fire_timer 2 detached_page) 21 = None
   \<and> \<not> pending 2 (fire_timer 2 detached_page)
   \<and> elems (cancelLoading (Some 21) detached_page) = elems detached_page
   \<and> events (cancelLoading (Some 21) detached_page) = events detached_page
   \<and> buttonTimeouts (cancelLoading (Some 21) detached_page) 21 = None
   \<and> buttonOriginalContent (cancelLoading (Some 21) detached_page) 21 = None
   \<and> \<not> pending 2 (cancelLoading (Some 21) detached_page)"
proof -
  obtain T where f: "find (\<lambda>y. tid y = 2) (timers (handleLoading 21 loading_page)) = Some T"
    and c: "is_loading_callback 21 (cb T)" and p: "pending 2 (handleLoading 21 loading_page)"
    using page_session by (rule in_sessionD)
  have d: "\<not> isElementConnected 21 detached_page"
    by (simp add: detached_page_def isElementConnected_def)
  have f': "find (\<lambda>y. tid y = 2) (timers detached_page) = Some T"
    using f by (simp add: detached_page_def)
  have b: "buttonTimeouts detached_page 21 = Some 2"
    using page_session by (simp add: in_session_def detached_page_def)
  have p': "pending 2 detached_page"
    using p by (simp add: pending_def detached_page_def)
  have np: "\<not> pending 2 (fire_timer 2 detached_page)"
    using detached_widget_untouched [OF d, of 2 T] f' c loading_widget_callback [OF c]
    by (auto simp: pending_def)
  show ?thesis
    using detached_widget_untouched [OF d, of 2 T] d f' b c p' np loading_widget_callback [OF c]
    by simp
qed

text \<open>
  Claim C10.  Let \<open>w\<close> be connected, with no stored snapshot and no timer entry.  Then
  \<open>cancelLoading(w)\<close> is not a no-op: afterwards \<open>w\<close> has no loading class, its busy
  attribute is \<open>false\<close>, its disabled flag is false whatever it was before, a
  \<open>loadingComplete\<close> event has been dispatched on \<open>w\<close>, and the completion message has
  gone through \<open>_announce\<close>: with a live region its text is cleared and the write of the
  message is scheduled after the announcement delay; without one nothing is scheduled.
\<close>

theorem cancelLoading_idle:
  assumes "isElementConnected w s"
    and "buttonOriginalContent s w = None"
    and "buttonTimeouts s w = None"
  shows "\<not> classList_contains w ''btn--loading'' (cancelLoading (Some w) s)
    \<and> getAttribute w aria_busy (cancelLoading (Some w) s) = Some ''false''
    \<and> disabled (elems (cancelLoading (Some w) s) w) = False
    \<and> events (cancelLoading (Some w) s) = events s @ [(w, ''loadingComplete'', EmptyDetail)]
    \<and> cancelLoading (Some w) s \<noteq> s
    \<and> (liveRegion s = None \<longrightarrow> timers (cancelLoading (Some w) s) = timers s)
    \<and> (liveRegion s \<noteq> None \<longrightarrow>
         live_text (cancelLoading (Some w) s) = Some []
         \<and> timers (cancelLoading (Some w) s) =
             timers s @ [\<lparr>tid = Suc (timer_count s), due = now s + 150,
                          cb = AnnounceSet (i18n_complete s)\<rparr>])"
proof -
  have e: "events (cancelLoading (Some w) s) = events s @ [(w, ''loadingComplete'', EmptyDetail)]"
    using assms(1) by (rule connected_cancel_events)
  then have "events (cancelLoading (Some w) s) \<noteq> events s" by simp
  then have n: "cancelLoading (Some w) s \<noteq> s" by auto
  have k: "cancelLoading (Some w) s = resetLoadingState w s"
    using assms(1,3) by (simp add: cancel_connected clearExisting_def)
  have el: "\<not> classList_contains w ''btn--loading'' (resetLoadingState w s)
    \<and> getAttribute w aria_busy (resetLoadingState w s) = Some ''false''
    \<and> disabled (elems (resetLoadingState w s) w) = False"
    using assms(2)
    by (auto simp: loading_ops elem_ops Let_def split: option.splits)
  have lt: "live_text (resetLoadingState w s) = Some []" if "liveRegion s \<noteq> None"
    using that assms(2)
    by (auto simp: loading_ops elem_ops live_text_def Let_def split: option.splits)
  have tm: "timers (resetLoadingState w s) =
      timers s @ (case liveRegion s of None \<Rightarrow> []
                 | Some r \<Rightarrow> [\<lparr>tid = Suc (timer_count s), due = now s + 150,
                                cb = AnnounceSet (i18n_complete s)\<rparr>])"
    by (rule reset_timers)
  show ?thesis
    unfolding k [symmetric] using e n el lt tm
    by (auto simp: k split: option.splits)
qed

text \<open>The disabled plain button of the example page.\<close>

theorem cancelLoading_idle_witness:
  "isElementConnected 22 loading_page
   \<and> buttonOriginalContent loading_page 22 = None
   \<and> buttonTimeouts loading_page 22 = None
   \<and> disabled (elems loading_page 22) = True
   \<and> disabled (elems (cancelLoading (Some 22) loading_page) 22) = False
   \<and> getAttribute 22 aria_busy (cancelLoading (Some 22) loading_page) = Some ''false''
   \<and> events (cancelLoading (Some 22) loading_page) = [(22, ''loadingComplete'', EmptyDetail)]
   \<and> timers (cancelLoading (Some 22) loading_page) =
        [\<lparr>tid = 1, due = 150, cb = AnnounceSet ''Action completed''\<rparr>]"
  using cancelLoading_idle [of 22 loading_page]
  by (simp add: loading_page_facts)

lemma promise_settle_other: "q \<noteq> p \<Longrightarrow> promise p (settle q v s) = promise p s"
  by (simp add: promise_def settle_def)

lemma never_resolved_frame:
  "never_resolved p y \<Longrightarrow> promises z = promises y \<Longrightarrow> timers z = timers y \<Longrightarrow>
   never_resolved p z"
  by (auto simp: never_resolved_def promise_def split: if_splits)

lemma never_resolved_reset:
  "never_resolved p y \<Longrightarrow> never_resolved p (resetLoadingState w y)"
  by (auto simp: never_resolved_def promise_def reset_frame reset_timers
      split: option.splits if_splits)

lemma never_resolved_discard:
  "never_resolved p y \<Longrightarrow> never_resolved p (discard_bookkeeping w y)"
  by (erule never_resolved_frame) (simp_all add: discard_bookkeeping_def)

lemma never_resolved_settle:
  "never_resolved p y \<Longrightarrow> q \<noteq> p \<Longrightarrow> never_resolved p (settle q v y)"
  by (simp add: never_resolved_def promise_settle_other settle_frame)

lemma never_resolved_run:
  assumes "never_resolved p y"
    and "case c of SetLoadingExpire b q \<Rightarrow> q \<noteq> p | _ \<Rightarrow> True"
  shows "never_resolved p (run_callback c y)"
proof (cases c)
  case (LoadingExpire b)
  then show ?thesis
    using assms(1) by (simp add: run_callback_def never_resolved_reset never_resolved_discard)
next
  case (SetLoadingExpire b q)
  then show ?thesis
    using assms
    by (simp add: run_callback_def never_resolved_reset never_resolved_discard
        never_resolved_settle)
next
  case (AutoDisableExpire b)
  then show ?thesis
    by (intro never_resolved_frame [OF assms(1)])
       (simp_all add: run_callback_def elem_ops Let_def)
next
  case (AnnounceSet m)
  then show ?thesis
    by (intro never_resolved_frame [OF assms(1)])
       (simp_all add: run_callback_def elem_ops split: option.splits)
qed

lemma never_resolved_fire:
  assumes "never_resolved p y"
  shows "never_resolved p (fire_timer t y)"
proof (cases "find (\<lambda>x. tid x = t) (timers y)")
  case None
  then show ?thesis using assms by (simp add: fire_timer_def)
next
  case (Some T)
  then have "T \<in> set (timers y)"
    by (auto simp: find_Some_iff in_set_conv_nth)
  then have c: "case cb T of SetLoadingExpire b q \<Rightarrow> q \<noteq> p | _ \<Rightarrow> True"
    using assms by (auto simp: never_resolved_def list_all_iff)
  have "never_resolved p (clearTimeout t y)"
    using assms
    by (auto simp: never_resolved_def promise_def clearTimeout_def list_all_iff split: if_splits)
  then show ?thesis
    using c by (simp add: fire_timer_found [OF Some] never_resolved_run)
qed

lemma never_resolved_fold:
  "never_resolved p y \<Longrightarrow> never_resolved p (fold (\<lambda>x. fire_timer (tid x)) xs y)"
  by (induction xs arbitrary: y) (simp_all add: never_resolved_fire)

lemma never_resolved_advance:
  "never_resolved p y \<Longrightarrow> never_resolved p (advance n y)"
proof (induction n arbitrary: y)
  case 0
  then show ?case by simp
next
  case (Suc n)
  have "never_resolved p (y\<lparr>now := Suc (now y)\<rparr>)"
    by (intro never_resolved_frame [OF Suc.prems]) simp_all
  then have "never_resolved p (fire_due (y\<lparr>now := Suc (now y)\<rparr>))"
    unfolding fire_due_def by (rule never_resolved_fold)
  then show ?case
    using Suc.IH by simp
qed

lemma setLoading_page:
  "fst (setLoading (Element 21) (Some 2000) loading_page) = 0"
  "promises (snd (setLoading (Element 21) (Some 2000) loading_page)) = [Pending]"
  "timers (snd (setLoading (Element 21) (Some 2000) loading_page)) =
     [\<lparr>tid = 1, due = 150, cb = AnnounceSet ''Loading, please wait''\<rparr>,
      \<lparr>tid = 2, due = 2000, cb = SetLoadingExpire 21 0\<rparr>]"
  "buttonTimeouts (snd (setLoading (Element 21) (Some 2000) loading_page)) 21 = Some 2"
  "isElementConnected 21 (snd (setLoading (Element 21) (Some 2000) loading_page))"
  "events (snd (setLoading (Element 21) (Some 2000) loading_page)) = []"
  "liveRegion (snd (setLoading (Element 21) (Some 2000) loading_page)) = Some 100"
  "i18n_complete (snd (setLoading (Element 21) (Some 2000) loading_page)) = ''Action completed''"
proof -
  note c = clearExisting_none
  have i: "i18n_loading loading_page = ''Loading, please wait''"
    by (simp add: loading_page_defs)
  show "fst (setLoading (Element 21) (Some 2000) loading_page) = 0"
    by (simp add: setLoading_def Let_def loading_page_facts)
  show "promises (snd (setLoading (Element 21) (Some 2000) loading_page)) = [Pending]"
    by (simp add: setLoading_element start_timeout_sched announce_frame apply_loading_frame
        clearExisting_frame store_original_frame loading_page_facts)
  show "liveRegion (snd (setLoading (Element 21) (Some 2000) loading_page)) = Some 100"
    by (simp add: setLoading_element start_timeout_sched announce_frame apply_loading_frame
        clearExisting_frame store_original_frame loading_page_facts)
  show "i18n_complete (snd (setLoading (Element 21) (Some 2000) loading_page)) =
      ''Action completed''"
    by (simp add: setLoading_element start_timeout_sched announce_frame apply_loading_frame
        clearExisting_frame store_original_frame loading_page_facts)
  show "timers (snd (setLoading (Element 21) (Some 2000) loading_page)) =
     [\<lparr>tid = 1, due = 150, cb = AnnounceSet ''Loading, please wait''\<rparr>,
      \<lparr>tid = 2, due = 2000, cb = SetLoadingExpire 21 0\<rparr>]"
    by (simp add: setLoading_element c start_timeout_sched announce_sched announce_frame
        announce_timer_def apply_loading_frame store_original_frame loading_page_facts i
        clamp_def minDuration_def maxDuration_def)
  show "buttonTimeouts (snd (setLoading (Element 21) (Some 2000) loading_page)) 21 = Some 2"
    by (simp add: setLoading_element c start_timeout_sched announce_sched announce_frame
        announce_timer_def apply_loading_frame store_original_frame loading_page_facts)
  show "isElementConnected 21 (snd (setLoading (Element 21) (Some 2000) loading_page))"
    using loading_page_facts(2)
    by (simp add: isElementConnected_def setLoading_element start_timeout_sched
        announce_frame apply_loading_frame clearExisting_frame store_original_frame)
  show "events (snd (setLoading (Element 21) (Some 2000) loading_page)) = []"
    by (simp add: setLoading_element c start_timeout_sched announce_frame apply_loading_frame
        store_original_frame loading_page_facts)
qed

text \<open>
  Claim C3 fails on the code.  On the example page \<open>setLoading\<close> on the loading button
  returns promise 0, which the expiry of the timer would fulfil.  \<open>cancelLoading\<close> before
  the expiry runs the reset and dispatches \<open>loadingComplete\<close>, but it clears the only
  timer whose closure resolves the promise: the promise is still pending after the
  cancellation and stays pending however much time passes.
\<close>

theorem cancelled_promise_stays_pending:
  "fst (setLoading (Element 21) (Some 2000) loading_page) = 0
   \<and> promise 0 (snd (setLoading (Element 21) (Some 2000) loading_page)) = Some Pending
   \<and> promise 0 (fire_timer 2 (snd (setLoading (Element 21) (Some 2000) loading_page))) =
       Some Fulfilled
   \<and> events (cancelLoading (Some 21) (snd (setLoading (Element 21) (Some 2000) loading_page))) =
       [(21, ''loadingComplete'', EmptyDetail)]
   \<and> map cb (timers (cancelLoading (Some 21)
         (snd (setLoading (Element 21) (Some 2000) loading_page)))) =
       [AnnounceSet ''Loading, please wait'', AnnounceSet ''Action completed'']
   \<and> promise 0 (advance n (cancelLoading (Some 21)
         (snd (setLoading (Element 21) (Some 2000) loading_page)))) = Some Pending"
proof -
  let ?s1 = "snd (setLoading (Element 21) (Some 2000) loading_page)"
  note f = setLoading_page
  have p1: "promise 0 ?s1 = Some Pending"
    by (simp add: promise_def f)
  have k: "cancelLoading (Some 21) ?s1 = resetLoadingState 21 (clearExisting 21 ?s1)"
    using f(5) by (rule cancel_connected)
  have ce: "timers (clearExisting 21 ?s1) =
      [\<lparr>tid = 1, due = 150, cb = AnnounceSet ''Loading, please wait''\<rparr>]"
    by (simp add: clearExisting_def clearTimeout_def f)
  have lr: "liveRegion (clearExisting 21 ?s1) = Some 100"
    and ic: "i18n_complete (clearExisting 21 ?s1) = ''Action completed''"
    by (simp_all add: clearExisting_frame f)
  have tm: "map cb (timers (cancelLoading (Some 21) ?s1)) =
       [AnnounceSet ''Loading, please wait'', AnnounceSet ''Action completed'']"
    by (simp add: k reset_timers ce lr ic)
  have ev: "events (cancelLoading (Some 21) ?s1) = [(21, ''loadingComplete'', EmptyDetail)]"
    using connected_cancel_events [OF f(5)] by (simp add: f)
  have pc: "promise 0 (cancelLoading (Some 21) ?s1) = Some Pending"
    by (simp add: promise_def k reset_frame clearExisting_frame f)
  have "never_resolved 0 (cancelLoading (Some 21) ?s1)"
    using pc tm by (auto simp: never_resolved_def list_all_iff)
  then have "never_resolved 0 (advance n (cancelLoading (Some 21) ?s1))"
    by (rule never_resolved_advance)
  then have adv: "promise 0 (advance n (cancelLoading (Some 21) ?s1)) = Some Pending"
    by (simp add: never_resolved_def)
  have ff: "find (\<lambda>x. tid x = 2) (timers ?s1) = Some \<lparr>tid = 2, due = 2000, cb = SetLoadingExpire 21 0\<rparr>"
    by (simp add: f)
  have fu: "promise 0 (fire_timer 2 ?s1) = Some Fulfilled"
    using f(5)
    by (simp add: fire_timer_found [OF ff] run_callback_def isElementConnected_def
        clearTimeout_frame promise_def settle_def reset_frame f)
  show ?thesis
    using f(1) p1 fu ev tm adv by simp
qed

section \<open>Announcements\<close>

lemma advance_add: "advance (m + n) s = advance n (advance m s)"
  by (induction m arbitrary: s) simp_all

lemma fire_due_idle:
  "\<forall>x \<in> set (timers s). now s < due x \<Longrightarrow> fire_due s = s"
proof -
  assume "\<forall>x \<in> set (timers s). now s < due x"
  then have "filter (\<lambda>x. due x \<le> now s) (timers s) = []"
    by (auto simp: filter_empty_conv)
  then show ?thesis by (simp add: fire_due_def)
qed

lemma advance_idle:
  "\<forall>x \<in> set (timers s). now s + n < due x \<Longrightarrow> advance n s = s\<lparr>now := now s + n\<rparr>"
proof (induction n arbitrary: s)
  case 0
  then show ?case by simp
next
  case (Suc n)
  let ?s = "s\<lparr>now := Suc (now s)\<rparr>"
  have "fire_due ?s = ?s"
    using Suc.prems by (intro fire_due_idle) auto
  moreover have "advance n ?s = ?s\<lparr>now := now ?s + n\<rparr>"
    using Suc.prems by (intro Suc.IH) auto
  ultimately show ?case by simp
qed

lemma advance_Suc_end: "advance (Suc n) s = fire_due ((advance n s)\<lparr>now := Suc (now (advance n s))\<rparr>)"
  using advance_add [of n 1 s] by simp

lemma announce_live:
  assumes "liveRegion s = Some r"
  shows "announce m s =
     s\<lparr>elems := (elems s)(r := (elems s r)\<lparr>textContent := []\<rparr>),
       timers := timers s @ [\<lparr>tid = Suc (timer_count s), due = now s + 150, cb = AnnounceSet m\<rparr>],
       timer_count := Suc (timer_count s)\<rparr>"
  using assms
  by (simp add: announce_def setTimeout_def set_textContent_def update_element_def announceDelay_def)

lemma fire_announce:
  assumes "liveRegion s = Some r" and "isElementConnected r s"
    and "find (\<lambda>x. tid x = t) (timers s) = Some T" and "cb T = AnnounceSet m"
  shows "fire_timer t s =
     s\<lparr>timers := filter (\<lambda>x. tid x \<noteq> t) (timers s),
       elems := (elems s)(r := (elems s r)\<lparr>textContent := m\<rparr>)\<rparr>"
  using assms
  by (simp add: fire_timer_def run_callback_def clearTimeout_def isElementConnected_def
      set_textContent_def update_element_def)

lemma advance_to_next:
  assumes "0 < n" and "\<forall>x \<in> set (timers s). now s + n \<le> due x"
  shows "advance n s = fire_due (s\<lparr>now := now s + n\<rparr>)"
proof -
  obtain k where n: "n = Suc k"
    using assms(1) by (cases n) auto
  have e: "advance k s = s\<lparr>now := now s + k\<rparr>"
    using assms(2) by (intro advance_idle) (auto simp: n)
  show ?thesis
    unfolding n advance_Suc_end e by simp
qed

lemma filter_fresh:
  "list_all (\<lambda>x. tid x \<le> n) xs \<Longrightarrow> n < t \<Longrightarrow> filter (\<lambda>x. tid x \<noteq> t) xs = xs"
  by (induction xs) auto

lemma find_fresh_all:
  "list_all (\<lambda>x. tid x \<le> n) xs \<Longrightarrow> n < t \<Longrightarrow> find (\<lambda>x. tid x = t) xs = None"
  by (induction xs) auto

lemma filter_later:
  "\<forall>x \<in> set xs. n < due x \<Longrightarrow> filter (\<lambda>x. due x \<le> n) xs = []"
  by (induction xs) auto

text \<open>
  Claim C9.  Let the live region exist and be connected, and let every timeout that is
  already pending be due later than the two announcements.  \<open>announce\<close> clears the
  text at once and the message appears only when the delay of 150 ms has elapsed.  When a
  second call arrives \<open>dt < 150\<close> ms after the first, the text is cleared again, the
  first timeout is still pending with its original due time next to the new one (it is
  not restarted), and once both have fired the text is the second message and neither is
  pending any more: the first message is never the final content.
\<close>

theorem announce_latest_wins:
  assumes lr: "liveRegion s = Some r" and conn: "isElementConnected r s"
    and wf: "timers_wf s"
    and later: "\<forall>x \<in> set (timers s). now s + dt + 150 < due x"
    and dt: "dt < 150"
  shows "live_text (announce m1 s) = Some []
    \<and> live_text (advance dt (announce m1 s)) = Some []
    \<and> live_text (advance 150 (announce m1 s)) = Some m1
    \<and> live_text (announce m2 (advance dt (announce m1 s))) = Some []
    \<and> map (\<lambda>x. (due x, cb x)) (timers (announce m2 (advance dt (announce m1 s)))) =
         map (\<lambda>x. (due x, cb x)) (timers s)
         @ [(now s + 150, AnnounceSet m1), (now s + dt + 150, AnnounceSet m2)]
    \<and> live_text (advance 150 (announce m2 (advance dt (announce m1 s)))) = Some m2
    \<and> timers (advance 150 (announce m2 (advance dt (announce m1 s)))) = timers s"
proof -
  define T1 where "T1 = \<lparr>tid = Suc (timer_count s), due = now s + 150, cb = AnnounceSet m1\<rparr>"
  define T2 where
    "T2 = \<lparr>tid = Suc (Suc (timer_count s)), due = now s + dt + 150, cb = AnnounceSet m2\<rparr>"
  define S1 where "S1 = announce m1 s"
  define S2 where "S2 = announce m2 (advance dt S1)"
  have ids: "list_all (\<lambda>x. tid x \<le> timer_count s) (timers s)"
    using wf by (simp add: timers_wf_def)
  have due1: "\<forall>x \<in> set (timers s). now s + 150 < due x"
    using later by auto
  have S1: "liveRegion S1 = Some r" "isElementConnected r S1" "timers S1 = timers s @ [T1]"
    "now S1 = now s" "timer_count S1 = Suc (timer_count s)" "live_text S1 = Some []"
    using lr conn
    by (simp_all add: S1_def T1_def announce_live isElementConnected_def live_text_def)
  have "\<forall>x \<in> set (timers S1). now S1 + dt < due x"
    using dt later by (auto simp: S1 T1_def)
  then have idle1: "advance dt S1 = S1\<lparr>now := now s + dt\<rparr>"
    using advance_idle [of S1 dt] by (simp add: S1)
  have S2: "liveRegion S2 = Some r" "isElementConnected r S2" "timers S2 = timers s @ [T1, T2]"
    "now S2 = now s + dt" "live_text S2 = Some []"
    using S1 by (simp_all add: S2_def idle1 T2_def announce_live isElementConnected_def
        live_text_def)
  have find1: "find (\<lambda>x. tid x = tid T1) (timers s @ T1 # ys) = Some T1" for ys
    using find_fresh_all [OF ids, of "tid T1"] by (simp add: find_append T1_def)
  have find2: "find (\<lambda>x. tid x = tid T2) (timers s @ [T2]) = Some T2"
    using find_fresh_all [OF ids, of "tid T2"] by (simp add: find_append T2_def)
  have keep1: "filter (\<lambda>x. tid x \<noteq> tid T1) (timers s) = timers s"
    using filter_fresh [OF ids, of "tid T1"] by (simp add: T1_def)
  have keep2: "filter (\<lambda>x. tid x \<noteq> tid T2) (timers s) = timers s"
    using filter_fresh [OF ids, of "tid T2"] by (simp add: T2_def)
  have ne: "tid T2 \<noteq> tid T1" by (simp add: T1_def T2_def)
  have now150: "filter (\<lambda>x. due x \<le> now s + 150) (timers s) = []"
    using due1 by (rule filter_later)
  have one: "live_text (advance 150 S1) = Some m1"
  proof -
    have "advance 150 S1 = fire_due (S1\<lparr>now := now S1 + 150\<rparr>)"
      using due1 by (intro advance_to_next) (auto simp: S1 T1_def)
    also have "\<dots> = fire_timer (tid T1) (S1\<lparr>now := now s + 150\<rparr>)"
      by (simp add: fire_due_def S1 now150) (simp add: T1_def)
    also have "\<dots> = S1\<lparr>now := now s + 150, timers := timers s,
         elems := (elems S1)(r := (elems S1 r)\<lparr>textContent := m1\<rparr>)\<rparr>"
      using S1(1,2) find1 [of "[]"]
      by (subst fire_announce [where r = r and T = T1 and m = m1])
         (simp_all add: S1 isElementConnected_def keep1, simp add: T1_def)
    finally show ?thesis
      using S1(1) by (simp add: live_text_def)
  qed
  have first: "advance (150 - dt) S2 =
      (if dt = 0
       then S2\<lparr>now := now s + 150, timers := timers s,
              elems := (elems S2)(r := (elems S2 r)\<lparr>textContent := m2\<rparr>)\<rparr>
       else S2\<lparr>now := now s + 150, timers := timers s @ [T2],
              elems := (elems S2)(r := (elems S2 r)\<lparr>textContent := m1\<rparr>)\<rparr>)"
  proof -
    let ?X = "S2\<lparr>now := now s + 150\<rparr>"
    have "advance (150 - dt) S2 = fire_due (S2\<lparr>now := now S2 + (150 - dt)\<rparr>)"
      using dt due1 by (intro advance_to_next) (auto simp: S2 T1_def T2_def)
    then have a: "advance (150 - dt) S2 = fire_due ?X"
      using dt by (simp add: S2)
    have f1: "fire_timer (tid T1) ?X =
        ?X\<lparr>timers := timers s @ [T2],
           elems := (elems S2)(r := (elems S2 r)\<lparr>textContent := m1\<rparr>)\<rparr>"
      using S2(1,2) find1 [of "[T2]"] ne
      by (subst fire_announce [where r = r and T = T1 and m = m1])
         (simp_all add: S2 isElementConnected_def keep1, simp add: T1_def)
    show ?thesis
    proof (cases "dt = 0")
      case True
      have "fire_due ?X = fire_timer (tid T2) (fire_timer (tid T1) ?X)"
        using True by (simp add: fire_due_def S2 now150) (simp add: T1_def T2_def)
      also have "\<dots> = S2\<lparr>now := now s + 150, timers := timers s,
              elems := (elems S2)(r := (elems S2 r)\<lparr>textContent := m2\<rparr>)\<rparr>"
        unfolding f1 using S2(1,2) find2
        by (subst fire_announce [where r = r and T = T2 and m = m2])
           (simp_all add: S2 isElementConnected_def keep2, simp add: T2_def)
      finally show ?thesis using True a by simp
    next
      case False
      have "fire_due ?X = fire_timer (tid T1) ?X"
        using False by (simp add: fire_due_def S2 now150) (simp add: T1_def T2_def)
      then show ?thesis using False a f1 by simp
    qed
  qed
  have final: "advance 150 S2 =
      S2\<lparr>now := now s + dt + 150, timers := timers s,
         elems := (elems S2)(r := (elems S2 r)\<lparr>textContent := m2\<rparr>)\<rparr>"
  proof (cases "dt = 0")
    case True
    then show ?thesis using first by simp
  next
    case False
    let ?Y = "S2\<lparr>now := now s + 150, timers := timers s @ [T2],
              elems := (elems S2)(r := (elems S2 r)\<lparr>textContent := m1\<rparr>)\<rparr>"
    have later': "filter (\<lambda>x. due x \<le> now s + 150 + dt) (timers s) = []"
      using later by (intro filter_later) (auto simp: add.commute add.left_commute)
    have "advance 150 S2 = advance dt (advance (150 - dt) S2)"
      using dt advance_add [of "150 - dt" dt S2] by simp
    also have "\<dots> = advance dt ?Y"
      using False by (simp add: first)
    also have "\<dots> = fire_due (?Y\<lparr>now := now ?Y + dt\<rparr>)"
      using False later by (intro advance_to_next) (auto simp: T2_def)
    also have "\<dots> = fire_timer (tid T2) (?Y\<lparr>now := now s + 150 + dt\<rparr>)"
      by (simp add: fire_due_def later') (simp add: T2_def)
    also have "\<dots> = S2\<lparr>now := now s + dt + 150, timers := timers s,
         elems := (elems S2)(r := (elems S2 r)\<lparr>textContent := m2\<rparr>)\<rparr>"
      using S2(1,2) find2
      by (subst fire_announce [where r = r and T = T2 and m = m2])
         (simp_all add: isElementConnected_def keep2 add.commute add.left_commute,
          simp add: T2_def)
    finally show ?thesis .
  qed
  have l2: "live_text (advance 150 S2) = Some m2"
    and t2: "timers (advance 150 S2) = timers s"
    using S2(1) by (simp_all add: final live_text_def)
  have l1: "live_text (advance dt S1) = Some []"
    using S1(1,6) by (simp add: idle1 live_text_def)
  have tm: "map (\<lambda>x. (due x, cb x)) (timers S2) =
         map (\<lambda>x. (due x, cb x)) (timers s)
         @ [(now s + 150, AnnounceSet m1), (now s + dt + 150, AnnounceSet m2)]"
    by (simp add: S2 T1_def T2_def)
  show ?thesis
    using S1(6) l1 one S2(5) tm l2 t2 unfolding S2_def S1_def by simp
qed

lemma disabling_page_facts:
  "liveRegion disabling_page = Some 100"
  "isElementConnected 100 disabling_page"
  "timers_wf disabling_page"
  "timers disabling_page = [\<lparr>tid = 1, due = 3000, cb = AutoDisableExpire 23\<rparr>]"
  "now disabling_page = 0"
  by (simp_all add: disabling_page_def handleAutoDisable_def Let_def start_timeout_def
      setTimeout_def clearExisting_def elem_ops parseDuration_def disableDuration_def
      data_disableDuration_def loading_page_defs isElementConnected_def timers_wf_def)

text \<open>Two announcements 40 ms apart while an auto-disable countdown is pending.\<close>

theorem announce_latest_wins_witness:
  "liveRegion disabling_page = Some 100 \<and> isElementConnected 100 disabling_page
   \<and> timers_wf disabling_page
   \<and> timers disabling_page = [\<lparr>tid = 1, due = 3000, cb = AutoDisableExpire 23\<rparr>]
   \<and> live_text (announce ''first'' disabling_page) = Some []
   \<and> live_text (advance 150 (announce ''first'' disabling_page)) = Some ''first''
   \<and> live_text (announce ''second'' (advance 40 (announce ''first'' disabling_page))) = Some []
   \<and> map (\<lambda>x. (due x, cb x))
         (timers (announce ''second'' (advance 40 (announce ''first'' disabling_page)))) =
       [(3000, AutoDisableExpire 23), (150, AnnounceSet ''first''),
        (190, AnnounceSet ''second'')]
   \<and> live_text (advance 150 (announce ''second'' (advance 40 (announce ''first'' disabling_page))))
       = Some ''second''
   \<and> timers (advance 150 (announce ''second'' (advance 40 (announce ''first'' disabling_page))))
       = [\<lparr>tid = 1, due = 3000, cb = AutoDisableExpire 23\<rparr>]"
proof -
  have l: "\<forall>x \<in> set (timers disabling_page). now disabling_page + 40 + 150 < due x"
    by (simp add: disabling_page_facts)
  have d: "(40::nat) < 150" by simp
  show ?thesis
    using announce_latest_wins [OF disabling_page_facts(1,2,3) l d, of "''first''" "''second''"]
    by (simp add: disabling_page_facts)
qed

section \<open>Dropdowns\<close>

lemmas dropdown_ops = openDropdown_def openDropdown_private_def closeDropdown_private_def
  closeAllDropdowns_private_def handleDropdown_def handleDropdownKeyboard_def
  isElementConnected_def classList_contains_def

lemmas two_dropdowns_defs = two_dropdowns_def dropdown_part_def attach_def empty_page_def
  blank_def aria_expanded_def data_position_def

text \<open>
  Claim C2 fails on the code for the keyboard path.  On the page with two dropdowns, the
  first is opened through the public operation; ArrowDown with the focus on the trigger of
  the second then opens the second without closing the first: both are tracked as open
  and both triggers are expanded.  A click on the second trigger, or the public
  operation, in the same state closes the first.
\<close>

theorem arrow_down_leaves_two_open:
  "openDropdowns (openDropdown (Some 31) two_dropdowns) = [31]
   \<and> openDropdowns (handleDropdownKeyboard Key_ArrowDown 42 41
         (openDropdown (Some 31) two_dropdowns)) = [31, 41]
   \<and> getAttribute 32 aria_expanded (handleDropdownKeyboard Key_ArrowDown 42 41
         (openDropdown (Some 31) two_dropdowns)) = Some ''true''
   \<and> getAttribute 42 aria_expanded (handleDropdownKeyboard Key_ArrowDown 42 41
         (openDropdown (Some 31) two_dropdowns)) = Some ''true''
   \<and> openDropdowns (handleDropdown 42 41 (openDropdown (Some 31) two_dropdowns)) = [41]
   \<and> getAttribute 32 aria_expanded
         (handleDropdown 42 41 (openDropdown (Some 31) two_dropdowns)) = Some ''false''
   \<and> openDropdowns (openDropdown (Some 41) (openDropdown (Some 31) two_dropdowns)) = [41]
   \<and> getAttribute 32 aria_expanded
         (openDropdown (Some 41) (openDropdown (Some 31) two_dropdowns)) = Some ''false''"
  by (simp add: dropdown_ops elem_ops two_dropdowns_defs Let_def)

lemma position_neq_expanded: "data_position \<noteq> aria_expanded"
  by (simp add: data_position_def aria_expanded_def)

lemma close_expanded:
  "getAttribute n aria_expanded (closeDropdown_private d None s) =
     (if n = d \<or> q_trigger s d = Some n then Some ''false'' else getAttribute n aria_expanded s)"
  using position_neq_expanded
  by (auto simp: closeDropdown_private_def Let_def elem_ops split: option.splits)

lemma close_frame:
  "doc (closeDropdown_private d tr s) = doc s"
  "q_trigger (closeDropdown_private d tr s) = q_trigger s"
  "q_menu (closeDropdown_private d tr s) = q_menu s"
  by (auto simp: closeDropdown_private_def Let_def elem_ops split: option.splits)

lemma closeAll_fold_frame:
  "doc (fold (\<lambda>dropdown t. if isElementConnected dropdown t
                             then closeDropdown_private dropdown None t else t) xs s) = doc s"
  "q_trigger (fold (\<lambda>dropdown t. if isElementConnected dropdown t
                             then closeDropdown_private dropdown None t else t) xs s) = q_trigger s"
  "q_menu (fold (\<lambda>dropdown t. if isElementConnected dropdown t
                             then closeDropdown_private dropdown None t else t) xs s) = q_menu s"
  by (induction xs arbitrary: s) (simp_all add: close_frame isElementConnected_def)

lemma closeAll_fold_keeps_false:
  "getAttribute n aria_expanded s = Some ''false'' \<Longrightarrow>
   getAttribute n aria_expanded
     (fold (\<lambda>dropdown t. if isElementConnected dropdown t
                          then closeDropdown_private dropdown None t else t) xs s) = Some ''false''"
  by (induction xs arbitrary: s) (simp_all add: close_expanded)

lemma closeAll_fold_expanded:
  "e \<in> set xs \<Longrightarrow> isElementConnected e s \<Longrightarrow>
   getAttribute e aria_expanded
     (fold (\<lambda>dropdown t. if isElementConnected dropdown t
                          then closeDropdown_private dropdown None t else t) xs s) = Some ''false''"
proof (induction xs arbitrary: s)
  case Nil
  then show ?case by simp
next
  case (Cons x xs)
  show ?case
  proof (cases "e = x")
    case True
    then show ?thesis
      using Cons.prems(2) by (simp add: closeAll_fold_keeps_false close_expanded)
  next
    case False
    then have "e \<in> set xs" using Cons.prems(1) by simp
    moreover have "isElementConnected e
        (if isElementConnected x s then closeDropdown_private x None s else s)"
      using Cons.prems(2) by (simp add: isElementConnected_def close_frame)
    ultimately show ?thesis
      using Cons.IH by simp
  qed
qed

lemma closeAll_facts:
  "openDropdowns (closeAllDropdowns_private s) = []"
  "q_trigger (closeAllDropdowns_private s) = q_trigger s"
  "q_menu (closeAllDropdowns_private s) = q_menu s"
  "e \<in> set (openDropdowns s) \<Longrightarrow> isElementConnected e s \<Longrightarrow>
     getAttribute e aria_expanded (closeAllDropdowns_private s) = Some ''false''"
  by (simp_all add: closeAllDropdowns_private_def closeAll_fold_frame)
     (simp add: getAttribute_def closeAll_fold_expanded [unfolded getAttribute_def])

lemma open_private_facts:
  "openDropdowns y = [] \<Longrightarrow> openDropdowns (openDropdown_private t d m y) = [d]"
  "getAttribute n aria_expanded (openDropdown_private t d m y) =
     (if n = d \<or> n = t then Some ''true'' else getAttribute n aria_expanded y)"
  by (auto simp: openDropdown_private_def Let_def elem_ops)

text \<open>
  The two paths that do keep the single-open policy.  For a dropdown \<open>d\<close> with a trigger
  and a menu, the public \<open>openDropdown\<close> and a click on the trigger of the closed
  \<open>d\<close> leave \<open>d\<close> as the only tracked dropdown, and every other connected dropdown
  that was tracked has expanded = false afterwards.
\<close>

theorem open_closes_the_others:
  assumes "q_trigger s d = Some t" and "q_menu s d = Some m"
  shows "openDropdowns (openDropdown (Some d) s) = [d]
    \<and> (\<forall>e \<in> set (openDropdowns s). isElementConnected e s \<and> e \<noteq> d \<and> e \<noteq> t \<longrightarrow>
          getAttribute e aria_expanded (openDropdown (Some d) s) = Some ''false'')
    \<and> (\<not> classList_contains target ''btn-dropdown__item'' s
        \<and> (target = t \<or> contains s t target)
        \<and> getAttribute t aria_expanded s \<noteq> Some ''true'' \<longrightarrow>
          openDropdowns (handleDropdown target d s) = [d]
        \<and> (\<forall>e \<in> set (openDropdowns s). isElementConnected e s \<and> e \<noteq> d \<and> e \<noteq> t \<longrightarrow>
              getAttribute e aria_expanded (handleDropdown target d s) = Some ''false''))"
proof -
  have o: "openDropdown (Some d) s = openDropdown_private t d m (closeAllDropdowns_private s)"
    using assms by (simp add: openDropdown_def)
  have h: "handleDropdown target d s = openDropdown_private t d m (closeAllDropdowns_private s)"
    if "\<not> classList_contains target ''btn-dropdown__item'' s"
      "target = t \<or> contains s t target" "getAttribute t aria_expanded s \<noteq> Some ''true''"
    using assms that by (simp add: handleDropdown_def Let_def)
  have a: "openDropdowns (openDropdown_private t d m (closeAllDropdowns_private s)) = [d]"
    by (simp add: open_private_facts closeAll_facts)
  have b: "getAttribute e aria_expanded (openDropdown_private t d m (closeAllDropdowns_private s))
      = Some ''false''"
    if "e \<in> set (openDropdowns s)" "isElementConnected e s" "e \<noteq> d" "e \<noteq> t" for e
    using that by (simp add: open_private_facts closeAll_facts)
  show ?thesis
    using a b h by (auto simp: o)
qed

text \<open>The second dropdown of the example page, opened while the first is open.\<close>

theorem open_closes_the_others_witness:
  "q_trigger (openDropdown (Some 31) two_dropdowns) 41 = Some 42
   \<and> q_menu (openDropdown (Some 31) two_dropdowns) 41 = Some 43
   \<and> openDropdowns (openDropdown (Some 31) two_dropdowns) = [31]
   \<and> isElementConnected 31 (openDropdown (Some 31) two_dropdowns)
   \<and> getAttribute 31 aria_expanded (openDropdown (Some 31) two_dropdowns) = Some ''true''
   \<and> openDropdowns (openDropdown (Some 41) (openDropdown (Some 31) two_dropdowns)) = [41]
   \<and> getAttribute 31 aria_expanded
         (openDropdown (Some 41) (openDropdown (Some 31) two_dropdowns)) = Some ''false''
   \<and> openDropdowns (handleDropdown 42 41 (openDropdown (Some 31) two_dropdowns)) = [41]
   \<and> getAttribute 31 aria_expanded
         (handleDropdown 42 41 (openDropdown (Some 31) two_dropdowns)) = Some ''false''"
proof -
  let ?s = "openDropdown (Some 31) two_dropdowns"
  have f: "q_trigger ?s 41 = Some 42" "q_menu ?s 41 = Some 43" "openDropdowns ?s = [31]"
    "isElementConnected 31 ?s" "getAttribute 31 aria_expanded ?s = Some ''true''"
    "\<not> classList_contains 42 ''btn-dropdown__item'' ?s"
    "getAttribute 42 aria_expanded ?s \<noteq> Some ''true''"
    by (simp_all add: dropdown_ops elem_ops two_dropdowns_defs Let_def)
  show ?thesis
    using f open_closes_the_others [OF f(1,2), of 42]
    by simp
qed

section \<open>The promise of setLoading\<close>

text \<open>
  For an argument that is falsy or not an element, \<open>setLoading\<close> changes nothing but
  the new promise, which is rejected with a type error.
\<close>

theorem setLoading_invalid_rejects:
  "snd (setLoading Null d s) = s\<lparr>promises := promises s @ [Rejected TypeError]\<rparr>
   \<and> promise (fst (setLoading Null d s)) (snd (setLoading Null d s)) = Some (Rejected TypeError)
   \<and> snd (setLoading NotElement d s) = s\<lparr>promises := promises s @ [Rejected TypeError]\<rparr>
   \<and> promise (fst (setLoading NotElement d s)) (snd (setLoading NotElement d s)) =
       Some (Rejected TypeError)"
  by (simp add: setLoading_def Let_def settle_def promise_def)

lemma start_timeout_find:
  assumes "timers_wf y"
  shows "find (\<lambda>z. tid z = Suc (timer_count y)) (timers (start_timeout w c d y)) =
           Some \<lparr>tid = Suc (timer_count y), due = now y + nat d, cb = c\<rparr>"
proof -
  have "find (\<lambda>z. tid z = Suc (timer_count y)) (timers y) = None"
    using assms find_fresh [of "timer_count y" "timers y" "Suc (timer_count y)" "\<lambda>_. True"]
    by (simp add: timers_wf_def)
  then show ?thesis
    by (simp add: start_timeout_sched find_append)
qed

text \<open>
  For an element, the promise of \<open>setLoading\<close> is pending when the operation returns and
  fulfilled when the timer of the countdown fires; for a connected widget that expiry
  dispatches \<open>loadingComplete\<close>.
\<close>

theorem setLoading_expiry_resolves:
  assumes "timers_wf s"
  shows "promise (fst (setLoading (Element w) d s)) (snd (setLoading (Element w) d s))
           = Some Pending
    \<and> promise (fst (setLoading (Element w) d s))
         (fire_timer (timer_count (snd (setLoading (Element w) d s)))
            (snd (setLoading (Element w) d s))) = Some Fulfilled
    \<and> (isElementConnected w s \<longrightarrow>
         events (fire_timer (timer_count (snd (setLoading (Element w) d s)))
            (snd (setLoading (Element w) d s))) =
         events s @ [(w, ''loadingComplete'', EmptyDetail)])"
proof -
  define p where "p = length (promises s)"
  define y where "y = announce (i18n_loading s) (apply_loading w (clearExisting w
             (store_original w (s\<lparr>promises := promises s @ [Pending]\<rparr>))))"
  define c where "c = SetLoadingExpire w p"
  define dur where
    "dur = clamp (case d of None \<Rightarrow> loadingDuration | Some d \<Rightarrow> d) minDuration maxDuration"
  define s1 where "s1 = start_timeout w c dur y"
  define t where "t = timer_count s1"
  have fst: "fst (setLoading (Element w) d s) = p"
    by (simp add: setLoading_def Let_def p_def)
  have snd: "snd (setLoading (Element w) d s) = s1"
    by (simp add: setLoading_element s1_def c_def p_def dur_def y_def)
  have wf0: "timers_wf (store_original w (s\<lparr>promises := promises s @ [Pending]\<rparr>))"
    using assms by (simp add: timers_wf_def store_original_frame)
  have "timers_wf (apply_loading w (clearExisting w
             (store_original w (s\<lparr>promises := promises s @ [Pending]\<rparr>))))"
    using timers_wf_clearExisting [OF wf0] by (simp add: timers_wf_def apply_loading_frame)
  then have wf: "timers_wf y" unfolding y_def by (rule timers_wf_announce)
  have pr: "promises s1 = promises s @ [Pending]"
    and ev: "events s1 = events s" and dc: "doc s1 = doc s"
    by (simp_all add: s1_def y_def start_timeout_sched announce_frame apply_loading_frame
        clearExisting_frame store_original_frame)
  have tc: "t = Suc (timer_count y)"
    by (simp add: t_def s1_def start_timeout_sched)
  have f: "find (\<lambda>z. tid z = t) (timers s1) =
      Some \<lparr>tid = Suc (timer_count y), due = now y + nat dur, cb = c\<rparr>"
    unfolding tc s1_def using wf by (rule start_timeout_find)
  have fire: "fire_timer t s1 = run_callback c (clearTimeout t s1)"
    using fire_timer_found [OF f] by simp
  have p0: "promise p s1 = Some Pending"
    by (simp add: promise_def pr p_def)
  have p1: "promise p (fire_timer t s1) = Some Fulfilled"
    by (simp add: fire c_def run_callback_def promise_def settle_def reset_frame
        discard_bookkeeping_def clearTimeout_frame pr p_def)
  have e1: "events (fire_timer t s1) = events s @ [(w, ''loadingComplete'', EmptyDetail)]"
    if "isElementConnected w s"
  proof -
    have "isElementConnected w (clearTimeout t s1)"
      using that by (simp add: isElementConnected_def clearTimeout_frame dc)
    then show ?thesis
      by (simp add: fire c_def run_callback_def settle_frame reset_events clearTimeout_frame ev)
  qed
  show ?thesis
    unfolding fst snd t_def [symmetric] using p0 p1 e1 by simp
qed

text \<open>The loading button of the example page, left to expire.\<close>

theorem setLoading_expiry_resolves_witness:
  "timers_wf loading_page \<and> isElementConnected 21 loading_page
   \<and> promise 0 (snd (setLoading (Element 21) (Some 2000) loading_page)) = Some Pending
   \<and> promise 0 (fire_timer 2 (snd (setLoading (Element 21) (Some 2000) loading_page))) =
       Some Fulfilled
   \<and> events (fire_timer 2 (snd (setLoading (Element 21) (Some 2000) loading_page))) =
       [(21, ''loadingComplete'', EmptyDetail)]"
proof -
  have tc: "timer_count (snd (setLoading (Element 21) (Some 2000) loading_page)) = 2"
    by (simp add: setLoading_element start_timeout_sched announce_sched announce_timer_def
        apply_loading_frame clearExisting_frame store_original_frame loading_page_facts)
  show ?thesis
    using setLoading_expiry_resolves [OF loading_page_facts(1), of 21 "Some 2000"]
    by (simp add: loading_page_facts setLoading_page tc)
qed

section \<open>Loading countdowns: restart, expiry and cancellation\<close>

lemma in_session_iff:
  "in_session w t x = (countdown_pending w t x \<and> isElementConnected w x)"
  by (auto simp: in_session_def countdown_pending_def)

lemma countdown_pendingD:
  assumes "countdown_pending w t x"
  obtains T where "find (\<lambda>y. tid y = t) (timers x) = Some T" and "is_loading_callback w (cb T)"
    and "t \<le> timer_count x" and "pending t x"
proof -
  from assms obtain T where f: "find (\<lambda>y. tid y = t) (timers x) = Some T"
    and c: "is_loading_callback w (cb T)"
    by (auto simp: countdown_pending_def split: option.splits)
  from f have m: "T \<in> set (timers x)" and i: "tid T = t"
    by (auto simp: find_Some_iff in_set_conv_nth)
  from assms have "timers_wf x" by (simp add: countdown_pending_def)
  with m i have "t \<le> timer_count x" by (auto simp: timers_wf_def list_all_iff)
  moreover have "pending t x" using m i by (auto simp: pending_def)
  ultimately show ?thesis using that f c by blast
qed

lemma start_timeout_countdown:
  assumes "timers_wf y" and "is_loading_callback w c"
  shows "countdown_pending w (Suc (timer_count y)) (start_timeout w c d y)"
  using assms start_timeout_find [OF assms(1), of w c d] timers_wf_start_timeout [OF assms(1), of w c d]
  by (simp add: countdown_pending_def start_timeout_sched)

lemma handleLoading_countdown:
  assumes "timers_wf s" and "\<not> classList_contains w ''btn--loading'' s"
  shows "countdown_pending w (timer_count (handleLoading w s)) (handleLoading w s)"
    and "events (handleLoading w s) = events s"
proof -
  let ?y = "clearExisting w (announce (i18n_loading s) (apply_loading w (store_original w s)))"
  have "timers_wf (apply_loading w (store_original w s))"
    using assms(1) by (simp add: timers_wf_def apply_loading_frame store_original_frame)
  then have wf: "timers_wf ?y"
    by (intro timers_wf_clearExisting timers_wf_announce)
  have "countdown_pending w (Suc (timer_count ?y)) (start_timeout w (LoadingExpire w)
       (parseDuration (getAttribute w data_loadingDuration s) loadingDuration) ?y)"
    using wf by (rule start_timeout_countdown) (simp add: is_loading_callback_def)
  then show "countdown_pending w (timer_count (handleLoading w s)) (handleLoading w s)"
    by (simp add: handleLoading_unfold [OF assms(2)] start_timeout_sched)
  show "events (handleLoading w s) = events s"
    by (simp add: handleLoading_unfold [OF assms(2)] start_timeout_sched clearExisting_frame
        announce_frame apply_loading_frame store_original_frame)
qed

lemma setLoading_countdown:
  assumes "timers_wf s"
  shows "countdown_pending w (timer_count (snd (setLoading (Element w) d s)))
           (snd (setLoading (Element w) d s))"
    and "events (snd (setLoading (Element w) d s)) = events s"
proof -
  let ?y = "announce (i18n_loading s) (apply_loading w (clearExisting w
             (store_original w (s\<lparr>promises := promises s @ [Pending]\<rparr>))))"
  have "timers_wf (store_original w (s\<lparr>promises := promises s @ [Pending]\<rparr>))"
    using assms(1) by (simp add: timers_wf_def store_original_frame)
  then have "timers_wf (clearExisting w (store_original w (s\<lparr>promises := promises s @ [Pending]\<rparr>)))"
    by (rule timers_wf_clearExisting)
  then have "timers_wf (apply_loading w (clearExisting w
             (store_original w (s\<lparr>promises := promises s @ [Pending]\<rparr>))))"
    by (simp add: timers_wf_def apply_loading_frame)
  then have wf: "timers_wf ?y"
    by (rule timers_wf_announce)
  have "countdown_pending w (Suc (timer_count ?y))
          (start_timeout w (SetLoadingExpire w (length (promises s)))
             (clamp (case d of None \<Rightarrow> loadingDuration | Some d \<Rightarrow> d) minDuration maxDuration) ?y)"
    using wf by (rule start_timeout_countdown) (simp add: is_loading_callback_def)
  then show "countdown_pending w (timer_count (snd (setLoading (Element w) d s)))
           (snd (setLoading (Element w) d s))"
    by (simp add: setLoading_element start_timeout_sched)
  show "events (snd (setLoading (Element w) d s)) = events s"
    by (simp add: setLoading_element start_timeout_sched announce_frame apply_loading_frame
        clearExisting_frame store_original_frame)
qed

lemma countdown_restart_setLoading:
  assumes "countdown_pending w t x"
  shows "\<not> pending t (snd (setLoading (Element w) d x))"
proof -
  from assms obtain T where le: "t \<le> timer_count x"
    by (rule countdown_pendingD)
  have bt: "buttonTimeouts x w = Some t" and nz: "t \<noteq> 0"
    using assms by (simp_all add: countdown_pending_def)
  let ?x0 = "store_original w (x\<lparr>promises := promises x @ [Pending]\<rparr>)"
  have "buttonTimeouts ?x0 w = Some t"
    using bt by (simp add: store_original_frame)
  then have np: "\<not> pending t (clearExisting w ?x0)"
    using nz by (rule clearExisting_removes)
  have tc: "timer_count (clearExisting w ?x0) = timer_count x"
    by (simp add: clearExisting_frame store_original_frame)
  show ?thesis
    using np le tc
    by (auto simp: setLoading_element pending_def start_timeout_sched announce_sched
        apply_loading_frame announce_timer_def split: option.splits)
qed

lemma countdown_restart_click:
  assumes "countdown_pending w t x" and "\<not> classList_contains w ''btn--loading'' x"
  shows "\<not> pending t (handleLoading w x)"
proof -
  from assms(1) obtain T where le: "t \<le> timer_count x"
    by (rule countdown_pendingD)
  have bt: "buttonTimeouts x w = Some t" and nz: "t \<noteq> 0"
    using assms(1) by (simp_all add: countdown_pending_def)
  let ?y = "announce (i18n_loading x) (apply_loading w (store_original w x))"
  have "buttonTimeouts ?y w = Some t"
    using bt by (simp add: announce_frame apply_loading_frame store_original_frame)
  then have np: "\<not> pending t (clearExisting w ?y)"
    using nz by (rule clearExisting_removes)
  have tc: "timer_count x \<le> timer_count (clearExisting w ?y)"
    by (simp add: clearExisting_frame announce_sched apply_loading_frame store_original_frame)
  show ?thesis
    using np le tc
    by (auto simp: handleLoading_unfold [OF assms(2)] pending_def start_timeout_sched)
qed

lemma countdown_fire_detached:
  assumes "countdown_pending w t x" and "\<not> isElementConnected w x"
  shows "events (fire_timer t x) = events x" and "\<not> pending t (fire_timer t x)"
proof -
  from assms(1) obtain T where f: "find (\<lambda>y. tid y = t) (timers x) = Some T"
    and c: "is_loading_callback w (cb T)"
    by (rule countdown_pendingD)
  have d: "\<not> isElementConnected w (clearTimeout t x)"
    using assms(2) by (simp add: isElementConnected_def clearTimeout_frame)
  note r = run_callback_detached [OF d loading_widget_callback [OF c]]
  show "events (fire_timer t x) = events x"
    by (simp add: fire_timer_found [OF f] r clearTimeout_frame)
  show "\<not> pending t (fire_timer t x)"
    by (auto simp: pending_def fire_timer_found [OF f] r clearTimeout_frame)
qed

lemma countdown_cancel_detached:
  assumes "countdown_pending w t x" and "\<not> isElementConnected w x"
  shows "events (cancelLoading (Some w) x) = events x"
    and "\<not> pending t (cancelLoading (Some w) x)"
proof -
  have bt: "buttonTimeouts x w = Some t" and nz: "t \<noteq> 0"
    using assms(1) by (simp_all add: countdown_pending_def)
  have k: "cancelLoading (Some w) x = discard_bookkeeping w (clearExisting w x)"
    using assms(2)
    by (simp add: cancelLoading_def Let_def isElementConnected_def clearExisting_frame)
  show "events (cancelLoading (Some w) x) = events x"
    by (simp add: k discard_bookkeeping_def clearExisting_frame)
  show "\<not> pending t (cancelLoading (Some w) x)"
    using clearExisting_removes [OF bt nz]
    by (simp add: k pending_def discard_bookkeeping_def)
qed

text \<open>
  Claim C4, amended.  Both ways of starting a loading countdown, on any widget, leave a
  pending countdown and dispatch no \<open>loadingComplete\<close>.  While the countdown with timer
  \<open>t\<close> is pending: a second countdown started on the widget, by \<open>setLoading\<close> or by a
  click that finds no loading class, cancels \<open>t\<close> (a click that finds the class starts
  nothing); the expiry of \<open>t\<close> and a cancellation both take \<open>t\<close> off the pending list,
  so a cancelled timer never fires.  If the widget is connected, the expiry dispatches
  exactly one \<open>loadingComplete\<close>, a cancellation before the expiry exactly one, and a
  cancellation after the expiry a second one; if the widget is detached, neither
  dispatches any.  The statement follows the countdown recorded for the widget: the
  session of a button that also carries the auto-disable marker, whose timer is replaced
  within the same click, is not covered by it and is treated on its own below.
\<close>

theorem loading_countdown_events:
  "(timers_wf s \<and> \<not> classList_contains w ''btn--loading'' s \<longrightarrow>
      countdown_pending w (timer_count (handleLoading w s)) (handleLoading w s)
      \<and> loadingComplete_count w (handleLoading w s) = loadingComplete_count w s)
   \<and> (timers_wf s \<longrightarrow>
      countdown_pending w (timer_count (snd (setLoading (Element w) d s)))
        (snd (setLoading (Element w) d s))
      \<and> loadingComplete_count w (snd (setLoading (Element w) d s)) = loadingComplete_count w s)
   \<and> (countdown_pending w t x \<longrightarrow>
        pending t x
      \<and> \<not> pending t (snd (setLoading (Element w) d x))
      \<and> (\<not> classList_contains w ''btn--loading'' x \<longrightarrow> \<not> pending t (handleLoading w x))
      \<and> (classList_contains w ''btn--loading'' x \<longrightarrow> handleLoading w x = x)
      \<and> \<not> pending t (fire_timer t x)
      \<and> \<not> pending t (cancelLoading (Some w) x)
      \<and> fire_timer t (cancelLoading (Some w) x) = cancelLoading (Some w) x
      \<and> (isElementConnected w x \<longrightarrow>
            loadingComplete_count w (fire_timer t x) = Suc (loadingComplete_count w x)
          \<and> loadingComplete_count w (cancelLoading (Some w) x) = Suc (loadingComplete_count w x)
          \<and> loadingComplete_count w (cancelLoading (Some w) (fire_timer t x)) =
              Suc (Suc (loadingComplete_count w x)))
      \<and> (\<not> isElementConnected w x \<longrightarrow>
            loadingComplete_count w (fire_timer t x) = loadingComplete_count w x
          \<and> loadingComplete_count w (cancelLoading (Some w) x) = loadingComplete_count w x))"
proof -
  have a: "countdown_pending w (timer_count (handleLoading w s)) (handleLoading w s)
      \<and> loadingComplete_count w (handleLoading w s) = loadingComplete_count w s"
    if "timers_wf s" "\<not> classList_contains w ''btn--loading'' s"
    using handleLoading_countdown(1) [OF that] count_same [OF handleLoading_countdown(2) [OF that]]
    by simp
  have b: "countdown_pending w (timer_count (snd (setLoading (Element w) d s)))
        (snd (setLoading (Element w) d s))
      \<and> loadingComplete_count w (snd (setLoading (Element w) d s)) = loadingComplete_count w s"
    if "timers_wf s"
    using setLoading_countdown(1) [OF that] count_same [OF setLoading_countdown(2) [OF that]]
    by simp
  have c: "pending t x
      \<and> \<not> pending t (snd (setLoading (Element w) d x))
      \<and> (\<not> classList_contains w ''btn--loading'' x \<longrightarrow> \<not> pending t (handleLoading w x))
      \<and> (classList_contains w ''btn--loading'' x \<longrightarrow> handleLoading w x = x)
      \<and> \<not> pending t (fire_timer t x)
      \<and> \<not> pending t (cancelLoading (Some w) x)
      \<and> fire_timer t (cancelLoading (Some w) x) = cancelLoading (Some w) x
      \<and> (isElementConnected w x \<longrightarrow>
            loadingComplete_count w (fire_timer t x) = Suc (loadingComplete_count w x)
          \<and> loadingComplete_count w (cancelLoading (Some w) x) = Suc (loadingComplete_count w x)
          \<and> loadingComplete_count w (cancelLoading (Some w) (fire_timer t x)) =
              Suc (Suc (loadingComplete_count w x)))
      \<and> (\<not> isElementConnected w x \<longrightarrow>
            loadingComplete_count w (fire_timer t x) = loadingComplete_count w x
          \<and> loadingComplete_count w (cancelLoading (Some w) x) = loadingComplete_count w x)"
    if i: "countdown_pending w t x"
  proof -
    have p: "pending t x" using i by (rule countdown_pendingD)
    have r1: "\<not> pending t (snd (setLoading (Element w) d x))"
      using i by (rule countdown_restart_setLoading)
    have r2: "\<not> classList_contains w ''btn--loading'' x \<longrightarrow> \<not> pending t (handleLoading w x)"
      using countdown_restart_click [OF i] by blast
    have r3: "classList_contains w ''btn--loading'' x \<longrightarrow> handleLoading w x = x"
      by (simp add: handleLoading_def)
    have np: "\<not> pending t (fire_timer t x) \<and> \<not> pending t (cancelLoading (Some w) x)"
    proof (cases "isElementConnected w x")
      case True
      then have s: "in_session w t x" using i by (simp add: in_session_iff)
      show ?thesis using session_natural(2) [OF s] session_cancel(2) [OF s] by simp
    next
      case False
      show ?thesis
        using countdown_fire_detached(2) [OF i False] countdown_cancel_detached(2) [OF i False]
        by simp
    qed
    have conn: "loadingComplete_count w (fire_timer t x) = Suc (loadingComplete_count w x)
          \<and> loadingComplete_count w (cancelLoading (Some w) x) = Suc (loadingComplete_count w x)
          \<and> loadingComplete_count w (cancelLoading (Some w) (fire_timer t x)) =
              Suc (Suc (loadingComplete_count w x))"
      if k: "isElementConnected w x"
    proof -
      have s: "in_session w t x" using i k by (simp add: in_session_iff)
      note n = session_natural [OF s]
      note q = session_cancel [OF s]
      have late: "loadingComplete_count w (cancelLoading (Some w) (fire_timer t x)) =
          Suc (Suc (loadingComplete_count w x))"
        using connected_cancel_events [OF n(4)] n(1) by (simp add: loadingComplete_count_def)
      show ?thesis
        using count_snoc [OF n(1)] count_snoc [OF q(1)] late by simp
    qed
    have det: "loadingComplete_count w (fire_timer t x) = loadingComplete_count w x
          \<and> loadingComplete_count w (cancelLoading (Some w) x) = loadingComplete_count w x"
      if k: "\<not> isElementConnected w x"
      using count_same [OF countdown_fire_detached(1) [OF i k]]
        count_same [OF countdown_cancel_detached(1) [OF i k]]
      by simp
    show ?thesis
      using p r1 r2 r3 np conn det fire_timer_absent [of t "cancelLoading (Some w) x"]
      by blast
  qed
  show ?thesis
    using a b c by blast
qed

lemma announce_elem:
  "classes (elems (announce m y) n) = classes (elems y n)"
  "attrs (elems (announce m y) n) = attrs (elems y n)"
  "disabled (elems (announce m y) n) = disabled (elems y n)"
  by (auto simp: announce_def setTimeout_def elem_ops split: option.splits)

lemma start_timeout_elems: "elems (start_timeout b c d y) = elems y"
  by (simp add: start_timeout_def setTimeout_def)

lemma handleLoading_marks:
  assumes "\<not> classList_contains w ''btn--loading'' s"
  shows "classes (elems (handleLoading w s) w) = insert ''btn--loading'' (classes (elems s w))"
    and "getAttribute w a (handleLoading w s) =
           (if a = aria_busy then Some ''true'' else getAttribute w a s)"
  by (simp_all add: handleLoading_unfold [OF assms] classList_contains_def getAttribute_def
      start_timeout_elems clearExisting_frame announce_elem)
     (simp_all add: apply_loading_def store_original_def elem_ops)

text \<open>
  Claim C4, as stated, fails in two ways.  When the cancellation arrives after the
  expiry, one click on the loading button, the expiry of its timer and then
  \<open>cancelLoading\<close> give two \<open>loadingComplete\<close> events for the one session.  When the
  button has been removed from the document, the expiry of its timer gives none.
\<close>

theorem late_cancel_counterexample:
  "loadingComplete_count 21 loading_page = 0
   \<and> in_session 21 2 (handleLoading 21 loading_page)
   \<and> loadingComplete_count 21 (fire_timer 2 (handleLoading 21 loading_page)) = 1
   \<and> loadingComplete_count 21
        (cancelLoading (Some 21) (fire_timer 2 (handleLoading 21 loading_page))) = 2
   \<and> pending 2 detached_page
   \<and> buttonTimeouts detached_page 21 = Some 2
   \<and> loadingComplete_count 21 detached_page = 0
   \<and> loadingComplete_count 21 (fire_timer 2 detached_page) = 0
   \<and> \<not> pending 2 (fire_timer 2 detached_page)"
proof -
  have z: "loadingComplete_count 21 loading_page = 0"
    by (simp add: loadingComplete_count_def loading_page_facts)
  note i = page_session
  have e0: "events (handleLoading 21 loading_page) = []"
    using handleLoading_starts(2) [of loading_page 21] by (simp add: loading_page_facts)
  note n = session_natural [OF i]
  have e1: "events (fire_timer 2 (handleLoading 21 loading_page)) =
      [(21, ''loadingComplete'', EmptyDetail)]"
    using n(1) by (simp add: e0)
  have e2: "events (cancelLoading (Some 21) (fire_timer 2 (handleLoading 21 loading_page))) =
      [(21, ''loadingComplete'', EmptyDetail), (21, ''loadingComplete'', EmptyDetail)]"
    using connected_cancel_events [OF n(4)] by (simp add: e1)
  have cd: "countdown_pending 21 2 detached_page"
    using i by (simp add: in_session_def countdown_pending_def detached_page_def timers_wf_def)
  have dd: "\<not> isElementConnected 21 detached_page"
    by (simp add: detached_page_def isElementConnected_def)
  have pd: "pending 2 detached_page" using cd by (rule countdown_pendingD)
  have bd: "buttonTimeouts detached_page 21 = Some 2"
    using cd by (simp add: countdown_pending_def)
  have ed: "events detached_page = []"
    by (simp add: detached_page_def e0)
  have fd: "events (fire_timer 2 detached_page) = []"
    using countdown_fire_detached(1) [OF cd dd] by (simp add: ed)
  show ?thesis
    using z i pd bd countdown_fire_detached(2) [OF cd dd]
    by (simp add: loadingComplete_count_def e1 e2 ed fd)
qed

lemma unmarked_page_facts:
  "countdown_pending 21 2 unmarked_page"
  "\<not> classList_contains 21 ''btn--loading'' unmarked_page"
proof -
  have "timers unmarked_page = timers (handleLoading 21 loading_page)"
    "timer_count unmarked_page = timer_count (handleLoading 21 loading_page)"
    "buttonTimeouts unmarked_page = buttonTimeouts (handleLoading 21 loading_page)"
    by (simp_all add: unmarked_page_def elem_ops)
  then show "countdown_pending 21 2 unmarked_page"
    using page_session by (simp add: in_session_def countdown_pending_def timers_wf_def)
  show "\<not> classList_contains 21 ''btn--loading'' unmarked_page"
    by (simp add: unmarked_page_def elem_ops)
qed

text \<open>
  The countdown started by a click on the loading button of the example page: with the
  button connected, with its loading class taken off, and with the button removed.
\<close>

theorem loading_countdown_events_witness:
  "timers_wf loading_page
   \<and> \<not> classList_contains 21 ''btn--loading'' loading_page
   \<and> loadingComplete_count 21 loading_page = 0
   \<and> countdown_pending 21 2 (handleLoading 21 loading_page)
   \<and> isElementConnected 21 (handleLoading 21 loading_page)
   \<and> classList_contains 21 ''btn--loading'' (handleLoading 21 loading_page)
   \<and> pending 2 (handleLoading 21 loading_page)
   \<and> \<not> pending 2 (snd (setLoading (Element 21) None (handleLoading 21 loading_page)))
   \<and> handleLoading 21 (handleLoading 21 loading_page) = handleLoading 21 loading_page
   \<and> loadingComplete_count 21 (fire_timer 2 (handleLoading 21 loading_page)) = 1
   \<and> loadingComplete_count 21 (cancelLoading (Some 21) (handleLoading 21 loading_page)) = 1
   \<and> \<not> pending 2 (cancelLoading (Some 21) (handleLoading 21 loading_page))
   \<and> countdown_pending 21 2 unmarked_page
   \<and> \<not> classList_contains 21 ''btn--loading'' unmarked_page
   \<and> \<not> pending 2 (handleLoading 21 unmarked_page)
   \<and> countdown_pending 21 2 detached_page
   \<and> \<not> isElementConnected 21 detached_page
   \<and> loadingComplete_count 21 (fire_timer 2 detached_page) = 0
   \<and> loadingComplete_count 21 (cancelLoading (Some 21) detached_page) = 0"
proof -
  have z: "loadingComplete_count 21 loading_page = 0"
    by (simp add: loadingComplete_count_def loading_page_facts)
  have a: "countdown_pending 21 2 (handleLoading 21 loading_page)"
    and b: "loadingComplete_count 21 (handleLoading 21 loading_page) = 0"
    using loading_countdown_events [of loading_page 21 None 0 loading_page]
    by (simp_all add: loading_page_facts handleLoading_page_count z)
  have k: "isElementConnected 21 (handleLoading 21 loading_page)"
    using page_session by (simp add: in_session_def)
  have l: "classList_contains 21 ''btn--loading'' (handleLoading 21 loading_page)"
    using handleLoading_marks(1) [OF loading_page_facts(4)]
    by (simp add: classList_contains_def)
  have cd: "countdown_pending 21 2 detached_page"
    using a by (simp add: countdown_pending_def detached_page_def timers_wf_def)
  have dd: "\<not> isElementConnected 21 detached_page"
    by (simp add: detached_page_def isElementConnected_def)
  have zd: "loadingComplete_count 21 detached_page = 0"
    using b by (simp add: loadingComplete_count_def detached_page_def)
  show ?thesis
    using a b z k l cd dd zd unmarked_page_facts
      loading_countdown_events [of loading_page 21 None 2 "handleLoading 21 loading_page"]
      loading_countdown_events [of loading_page 21 None 2 unmarked_page]
      loading_countdown_events [of loading_page 21 None 2 detached_page]
    by (simp add: loading_page_facts)
qed

section \<open>A button with both the loading and the auto-disable marker\<close>

lemma busy_neq_disabled: "aria_busy \<noteq> aria_disabled"
  by (simp add: aria_busy_def aria_disabled_def)

lemma reset_other:
  "b \<noteq> w \<Longrightarrow> classes (elems (resetLoadingState b s) w) = classes (elems s w)"
  "b \<noteq> w \<Longrightarrow> attrs (elems (resetLoadingState b s) w) = attrs (elems s w)"
  by (auto simp: loading_ops elem_ops Let_def split: option.splits)

lemma count_other:
  "events y = events x @ [(b, nm, d)] \<Longrightarrow> b \<noteq> w \<Longrightarrow>
   loadingComplete_count w y = loadingComplete_count w x"
  by (simp add: loadingComplete_count_def)

lemma stuck_reset_other:
  assumes "stuck_loading w k s" and "b \<noteq> w"
  shows "stuck_loading w k (resetLoadingState b s)"
  using assms count_other [OF reset_events [of b s] assms(2)]
  by (auto simp: stuck_loading_def classList_contains_def getAttribute_def reset_other
      reset_timers is_loading_callback_def split: option.splits)

lemma stuck_frame:
  assumes "stuck_loading w k s"
    and "classes (elems z w) = classes (elems s w)"
    and "attrs (elems z w) aria_busy = attrs (elems s w) aria_busy"
    and "events z = events s" and "timers z = timers s"
  shows "stuck_loading w k z"
  using assms
  by (simp add: stuck_loading_def classList_contains_def getAttribute_def
      loadingComplete_count_def)

lemma stuck_run:
  assumes "stuck_loading w k s" and "\<not> is_loading_callback w c"
  shows "stuck_loading w k (run_callback c s)"
proof (cases c)
  case (LoadingExpire b)
  then have "b \<noteq> w" using assms(2) by (simp add: is_loading_callback_def)
  then show ?thesis
    using LoadingExpire stuck_reset_other [OF assms(1)]
      stuck_frame [OF assms(1), of "discard_bookkeeping b s"]
    by (simp add: run_callback_def discard_bookkeeping_def)
next
  case (SetLoadingExpire b p)
  then have ne: "b \<noteq> w" using assms(2) by (simp add: is_loading_callback_def)
  let ?y = "if isElementConnected b s then resetLoadingState b s else discard_bookkeeping b s"
  have "stuck_loading w k ?y"
    using stuck_reset_other [OF assms(1) ne] stuck_frame [OF assms(1), of "discard_bookkeeping b s"]
    by (simp add: discard_bookkeeping_def)
  then have "stuck_loading w k (settle p Fulfilled ?y)"
    by (rule stuck_frame) (simp_all add: settle_frame)
  then show ?thesis
    using SetLoadingExpire by (simp add: run_callback_def)
next
  case (AutoDisableExpire b)
  show ?thesis
    using busy_neq_disabled unfolding AutoDisableExpire
    by (intro stuck_frame [OF assms(1)]) (auto simp: run_callback_def elem_ops Let_def)
next
  case (AnnounceSet m)
  show ?thesis
    unfolding AnnounceSet
    by (intro stuck_frame [OF assms(1)]) (auto simp: run_callback_def elem_ops split: option.splits)
qed

lemma stuck_fire:
  assumes "stuck_loading w k s"
  shows "stuck_loading w k (fire_timer t s)"
proof (cases "find (\<lambda>x. tid x = t) (timers s)")
  case None
  then show ?thesis using assms by (simp add: fire_timer_def)
next
  case (Some T)
  then have "T \<in> set (timers s)"
    by (auto simp: find_Some_iff in_set_conv_nth)
  then have c: "\<not> is_loading_callback w (cb T)"
    using assms by (auto simp: stuck_loading_def list_all_iff)
  have "stuck_loading w k (clearTimeout t s)"
    using assms
    by (auto simp: stuck_loading_def classList_contains_def getAttribute_def
        loadingComplete_count_def clearTimeout_def list_all_iff)
  then show ?thesis
    using c by (simp add: fire_timer_found [OF Some] stuck_run)
qed

lemma stuck_fold:
  "stuck_loading w k s \<Longrightarrow> stuck_loading w k (fold (\<lambda>x. fire_timer (tid x)) xs s)"
  by (induction xs arbitrary: s) (simp_all add: stuck_fire)

lemma stuck_advance: "stuck_loading w k s \<Longrightarrow> stuck_loading w k (advance n s)"
proof (induction n arbitrary: s)
  case 0
  then show ?case by simp
next
  case (Suc n)
  have "stuck_loading w k (s\<lparr>now := Suc (now s)\<rparr>)"
    by (intro stuck_frame [OF Suc.prems]) simp_all
  then have "stuck_loading w k (fire_due (s\<lparr>now := Suc (now s)\<rparr>))"
    unfolding fire_due_def by (rule stuck_fold)
  then show ?case using Suc.IH by simp
qed

lemmas both_page_defs = both_page_def both_button_def createLiveRegion_def attach_def
  empty_page_def blank_def data_loadingText_def data_autoDisable_def data_toggle_def

lemma both_page_facts:
  "timers_wf both_page"
  "\<not> classList_contains 24 ''btn--loading'' both_page"
  "classes (elems both_page 24) = {}"
  "events both_page = []"
  "timers both_page = []"
  "timer_count both_page = 0"
  "now both_page = 0"
  "liveRegion both_page = Some 100"
  "buttonTimeouts both_page = Map.empty"
  "openDropdowns both_page = []"
  "disabled (elems both_page 24) = False"
  "getAttribute 24 aria_disabled both_page = None"
  "getAttribute 24 data_toggle both_page = None"
  "getAttribute 24 data_loadingText both_page = Some ''Saving''"
  "getAttribute 24 data_autoDisable both_page = Some []"
  "getAttribute 24 data_loadingDuration both_page = None"
  "i18n_loading both_page = ''Loading, please wait''"
  by (simp_all add: both_page_defs timers_wf_def classList_contains_def getAttribute_def
      aria_disabled_def data_loadingDuration_def)

lemma both_page_loading:
  "timers (handleLoading 24 both_page) =
     [\<lparr>tid = 1, due = 150, cb = AnnounceSet ''Loading, please wait''\<rparr>,
      \<lparr>tid = 2, due = 2000, cb = LoadingExpire 24\<rparr>]"
  "buttonTimeouts (handleLoading 24 both_page) 24 = Some 2"
  "timer_count (handleLoading 24 both_page) = 2"
  "now (handleLoading 24 both_page) = 0"
  "events (handleLoading 24 both_page) = []"
  by (simp_all add: handleLoading_unfold both_page_facts start_timeout_sched clearExisting_none
      announce_sched announce_frame announce_timer_def apply_loading_frame store_original_frame
      parseDuration_def loadingDuration_def start_timeout_def setTimeout_def)

lemma handleAutoDisable_frame:
  "events (handleAutoDisable w y) = events y"
  "classes (elems (handleAutoDisable w y) n) = classes (elems y n)"
  "attrs (elems (handleAutoDisable w y) n) a =
     (if n = w \<and> a = aria_disabled then Some ''true'' else attrs (elems y n) a)"
  "timers (handleAutoDisable w y) =
     timers (clearExisting w y) @
     [\<lparr>tid = Suc (timer_count y),
       due = now y + nat (parseDuration (getAttribute w data_disableDuration y) disableDuration),
       cb = AutoDisableExpire w\<rparr>]"
  by (simp_all add: handleAutoDisable_def Let_def start_timeout_def setTimeout_def elem_ops
      clearExisting_frame)
     (simp_all add: clearExisting_def clearTimeout_def split: option.splits)

lemma both_page_click:
  "handleEvent False (Some 24) None both_page = handleAutoDisable 24 (handleLoading 24 both_page)"
proof -
  have e: "closeAllDropdowns_private both_page = both_page"
    by (simp add: closeAllDropdowns_private_def both_page_defs)
  have ne: "data_autoDisable \<noteq> aria_busy"
    by (simp add: aria_busy_def data_autoDisable_def)
  have a: "hasAttribute 24 data_autoDisable (handleLoading 24 both_page)"
    using handleLoading_marks(2) [OF both_page_facts(2), of data_autoDisable] ne
    by (simp add: hasAttribute_def both_page_facts)
  have x: "\<not> classList_contains 24 ''btn-expand''
      (handleAutoDisable 24 (handleLoading 24 both_page))"
    using handleLoading_marks(1) [OF both_page_facts(2)]
    by (simp add: classList_contains_def handleAutoDisable_frame both_page_facts)
  show ?thesis
    using a x by (simp add: handleEvent_def Let_def e hasAttribute_def both_page_facts)
qed

text \<open>
  One click on a button that carries both markers runs \<open>_handleLoading\<close> and then
  \<open>_handleAutoDisable\<close>.  The two share the slot of the button in \<open>buttonTimeouts\<close>, so
  the second clears the timer the first has just started.  From then on, however much time
  passes, the button keeps the loading class and the busy attribute, no
  \<open>loadingComplete\<close> is dispatched on it, and a further click cannot start loading
  again.
\<close>

theorem loading_with_auto_disable_never_completes:
  "handleEvent False (Some 24) None both_page = handleAutoDisable 24 (handleLoading 24 both_page)
   \<and> map cb (timers (handleLoading 24 both_page)) =
       [AnnounceSet ''Loading, please wait'', LoadingExpire 24]
   \<and> map cb (timers (handleEvent False (Some 24) None both_page)) =
       [AnnounceSet ''Loading, please wait'', AutoDisableExpire 24]
   \<and> classList_contains 24 ''btn--loading'' (advance n (handleEvent False (Some 24) None both_page))
   \<and> getAttribute 24 aria_busy (advance n (handleEvent False (Some 24) None both_page)) =
       Some ''true''
   \<and> loadingComplete_count 24 (advance n (handleEvent False (Some 24) None both_page)) = 0
   \<and> handleLoading 24 (advance n (handleEvent False (Some 24) None both_page)) =
       advance n (handleEvent False (Some 24) None both_page)"
proof -
  let ?L = "handleLoading 24 both_page"
  let ?A = "handleAutoDisable 24 ?L"
  have ce: "timers (clearExisting 24 ?L) =
      [\<lparr>tid = 1, due = 150, cb = AnnounceSet ''Loading, please wait''\<rparr>]"
    by (simp add: clearExisting_def clearTimeout_def both_page_loading)
  have tl: "map cb (timers ?L) = [AnnounceSet ''Loading, please wait'', LoadingExpire 24]"
    by (simp add: both_page_loading)
  have ta: "map cb (timers ?A) = [AnnounceSet ''Loading, please wait'', AutoDisableExpire 24]"
    by (simp add: handleAutoDisable_frame ce)
  have cl: "classList_contains 24 ''btn--loading'' ?A"
    using handleLoading_marks(1) [OF both_page_facts(2)]
    by (simp add: classList_contains_def handleAutoDisable_frame)
  have bu: "getAttribute 24 aria_busy ?A = Some ''true''"
    using handleLoading_marks(2) [OF both_page_facts(2), of aria_busy] busy_neq_disabled
    by (simp add: getAttribute_def handleAutoDisable_frame)
  have ev: "loadingComplete_count 24 ?A = 0"
    by (simp add: loadingComplete_count_def handleAutoDisable_frame both_page_loading)
  have nl: "list_all (\<lambda>y. \<not> is_loading_callback 24 (cb y)) (timers ?A)"
    by (simp add: handleAutoDisable_frame ce is_loading_callback_def)
  have "stuck_loading 24 0 ?A"
    using cl bu ev nl by (simp add: stuck_loading_def)
  then have st: "stuck_loading 24 0 (advance n ?A)"
    by (rule stuck_advance)
  then have ig: "handleLoading 24 (advance n ?A) = advance n ?A"
    by (simp add: handleLoading_def stuck_loading_def)
  show ?thesis
    unfolding both_page_click using tl ta st ig by (simp add: stuck_loading_def)
qed

end
